theory Spec2Isabelle
  imports Main
begin

section \<open>Values exchanged with the model and the tools\<close>

text \<open>
  The JSON-shaped Python values without floating-point numbers: \<open>None\<close>, booleans,
  integers, strings, lists and dictionaries with string keys. A dictionary is kept as an
  association list in insertion order. A character of a \<open>string\<close> stands for one code
  point below 256. The error payload of the loop is such a value; so are the values that
  the tools modelled below take and return, as far as they hold no floating-point number.
\<close>

datatype json =
    JNull
  | JBool bool
  | JInt int
  | JStr string
  | JList "json list"
  | JObj "(string \<times> json) list"

text \<open>
  A raised Python exception of class \<open>Exception\<close>: its class name and \<open>str(exc)\<close>.
  Interpreter-exit signals (\<open>KeyboardInterrupt\<close>, \<open>SystemExit\<close>), which
  \<open>except Exception\<close> lets through, are not modelled.
\<close>

datatype exn = Exn (exn_class: string) (exn_str: string)

subsection \<open>\<open>json.dumps\<close> with its default settings\<close>

text \<open>
  \<open>dumps v\<close> is the text that \<open>json.dumps\<close> returns for \<open>v\<close> when it returns one;
  whether it returns is the matter of the serializer of the loop.
\<close>

text \<open>\<open>sep.join(parts)\<close>.\<close>

fun join :: "string \<Rightarrow> string list \<Rightarrow> string" where
  "join sep [] = []"
| "join sep [x] = x"
| "join sep (x # y # ys) = x @ sep @ join sep (y # ys)"

definition digit_char :: "nat \<Rightarrow> char" where
  "digit_char d = char_of (48 + d)"

text \<open>Decimal digits of a natural number, most significant first, no leading zero.\<close>

fun digits :: "nat \<Rightarrow> string" where
  "digits n = (if n < 10 then [digit_char n] else digits (n div 10) @ [digit_char (n mod 10)])"

declare digits.simps [simp del]

definition str_int :: "int \<Rightarrow> string" where
  "str_int i = (if i < 0 then CHR ''-'' # digits (nat (- i)) else digits (nat i))"

definition hex_char :: "nat \<Rightarrow> char" where
  "hex_char d = (if d < 10 then char_of (48 + d) else char_of (87 + d))"

text \<open>
  The escape of one character under \<open>ensure_ascii=True\<close>: the short escapes of the
  encoder's table, the character itself when printable ASCII, \<open>\u00xx\<close> (lower-case hex)
  otherwise.
\<close>

definition escape_char :: "char \<Rightarrow> string" where
  "escape_char c =
     (if c = CHR 0x22 then [CHR 0x5C, CHR 0x22]
      else if c = CHR 0x5C then [CHR 0x5C, CHR 0x5C]
      else if c = CHR 0x0A then [CHR 0x5C, CHR ''n'']
      else if c = CHR 0x0D then [CHR 0x5C, CHR ''r'']
      else if c = CHR 0x09 then [CHR 0x5C, CHR ''t'']
      else if c = CHR 0x08 then [CHR 0x5C, CHR ''b'']
      else if c = CHR 0x0C then [CHR 0x5C, CHR ''f'']
      else if 32 \<le> (of_char c :: nat) \<and> (of_char c :: nat) \<le> 126 then [c]
      else [CHR 0x5C, CHR ''u'', CHR ''0'', CHR ''0'',
            hex_char ((of_char c :: nat) div 16), hex_char ((of_char c :: nat) mod 16)])"

definition encode_str :: "string \<Rightarrow> string" where
  "encode_str s = CHR 0x22 # concat (map escape_char s) @ [CHR 0x22]"

fun dumps :: "json \<Rightarrow> string" where
  "dumps JNull = ''null''"
| "dumps (JBool b) = (if b then ''true'' else ''false'')"
| "dumps (JInt i) = str_int i"
| "dumps (JStr s) = encode_str s"
| "dumps (JList xs) = ''['' @ join '', '' (map dumps xs) @ '']''"
| "dumps (JObj kvs) =
     ''{'' @ join '', '' (map (\<lambda>kv. encode_str (fst kv) @ '': '' @ dumps (snd kv)) kvs) @ ''}''"

subsection \<open>\<open>json.loads\<close>\<close>

text \<open>
  The decoder of the standard library, in strict mode. Its answer on a text is one of
  three: the value read; a decoding error; or \<open>Outside\<close>, when the text holds something
  this embedding has no value for, so that nothing is said about what the library does
  with it: a floating-point number (\<open>NaN\<close> and \<open>Infinity\<close> among them), an escape for a
  code point above 255, or an integer of more than 640 digits, which the interpreter
  converts or refuses according to its limit for integer strings (a limit that is never
  set below 640). Limits of memory and of recursion depth are not modelled.
  A scanner returns the value read and the text that follows it.
\<close>

datatype 'a decoded = Decoded 'a | Malformed | Outside

definition is_ws :: "char \<Rightarrow> bool" where
  "is_ws c \<longleftrightarrow> c = CHR '' '' \<or> c = CHR 0x09 \<or> c = CHR 0x0A \<or> c = CHR 0x0D"

definition skip_ws :: "string \<Rightarrow> string" where
  "skip_ws s = dropWhile is_ws s"

definition is_digit :: "char \<Rightarrow> bool" where
  "is_digit c \<longleftrightarrow> 48 \<le> (of_char c :: nat) \<and> (of_char c :: nat) \<le> 57"

definition digit_val :: "char \<Rightarrow> nat" where
  "digit_val c = (of_char c :: nat) - 48"

text \<open>\<open>int(text)\<close> on a run of decimal digits.\<close>

definition nat_of_digits :: "string \<Rightarrow> nat" where
  "nat_of_digits ds = foldl (\<lambda>n c. 10 * n + digit_val c) 0 ds"

text \<open>The fraction part \<open>\.\d+\<close> and the exponent part \<open>[eE][-+]?\d+\<close> of the number pattern.\<close>

definition has_frac :: "string \<Rightarrow> bool" where
  "has_frac s = (case s of c # d # r \<Rightarrow> c = CHR ''.'' \<and> is_digit d | _ \<Rightarrow> False)"

definition has_exp :: "string \<Rightarrow> bool" where
  "has_exp s =
     (case s of
        c # d # r \<Rightarrow>
          (c = CHR ''e'' \<or> c = CHR ''E'') \<and>
          (is_digit d \<or>
           ((d = CHR ''+'' \<or> d = CHR ''-'') \<and> (case r of x # r' \<Rightarrow> is_digit x | [] \<Rightarrow> False)))
      | _ \<Rightarrow> False)"

text \<open>
  A number: the integer part \<open>-?(0|[1-9]\d*)\<close>; with a fraction or an exponent it is a
  floating-point number. Where no number begins, the scanner still accepts \<open>NaN\<close>,
  \<open>Infinity\<close> and \<open>-Infinity\<close>.
\<close>

definition scan_number :: "string \<Rightarrow> (json \<times> string) decoded" where
  "scan_number s =
     (case (case s of c # r \<Rightarrow> if c = CHR ''-'' then (True, r) else (False, s)
                    | [] \<Rightarrow> (False, s)) of
        (negative, s1) \<Rightarrow>
          (case s1 of
             [] \<Rightarrow> Malformed
           | d # r \<Rightarrow>
               if \<not> is_digit d then
                 (if take 8 s1 = ''Infinity'' \<or> (\<not> negative \<and> take 3 s1 = ''NaN'')
                  then Outside else Malformed)
               else
                 (case (if d = CHR ''0'' then ([d], r)
                        else (d # takeWhile is_digit r, dropWhile is_digit r)) of
                    (ds, rest) \<Rightarrow>
                      if has_frac rest \<or> has_exp rest then Outside
                      else if 640 < length ds then Outside
                      else Decoded (JInt (if negative then - int (nat_of_digits ds)
                                          else int (nat_of_digits ds)), rest))))"

definition hex_val :: "char \<Rightarrow> nat option" where
  "hex_val c =
     (let n = (of_char c :: nat) in
      if 48 \<le> n \<and> n \<le> 57 then Some (n - 48)
      else if 97 \<le> n \<and> n \<le> 102 then Some (n - 87)
      else if 65 \<le> n \<and> n \<le> 70 then Some (n - 55)
      else None)"

definition hex4 :: "char \<Rightarrow> char \<Rightarrow> char \<Rightarrow> char \<Rightarrow> nat option" where
  "hex4 a b c d =
     (case (hex_val a, hex_val b, hex_val c, hex_val d) of
        (Some x, Some y, Some z, Some u) \<Rightarrow> Some (4096 * x + 256 * y + 16 * z + u)
      | _ \<Rightarrow> None)"

text \<open>The table of the one-letter escapes.\<close>

definition unescape :: "char \<Rightarrow> char option" where
  "unescape e =
     (if e = CHR 0x22 then Some (CHR 0x22)
      else if e = CHR 0x5C then Some (CHR 0x5C)
      else if e = CHR ''/'' then Some (CHR ''/'')
      else if e = CHR ''b'' then Some (CHR 0x08)
      else if e = CHR ''f'' then Some (CHR 0x0C)
      else if e = CHR ''n'' then Some (CHR 0x0A)
      else if e = CHR ''r'' then Some (CHR 0x0D)
      else if e = CHR ''t'' then Some (CHR 0x09)
      else None)"

text \<open>
  The body of a string, from behind the opening quote to the closing one: an escape, a
  literal character, or an error at a control character.
\<close>

fun scanstring :: "string \<Rightarrow> string \<Rightarrow> (string \<times> string) decoded" where
  "scanstring acc [] = Malformed"
| "scanstring acc (c # cs) =
     (if c = CHR 0x22 then Decoded (acc, cs)
      else if c = CHR 0x5C then
        (case cs of
           [] \<Rightarrow> Malformed
         | e # r \<Rightarrow>
             if e = CHR ''u'' then
               (case r of
                  h1 # h2 # h3 # h4 # r' \<Rightarrow>
                    (case hex4 h1 h2 h3 h4 of
                       None \<Rightarrow> Malformed
                     | Some n \<Rightarrow> if n < 256 then scanstring (acc @ [char_of n]) r' else Outside)
                | _ \<Rightarrow> Malformed)
             else
               (case unescape e of
                  None \<Rightarrow> Malformed
                | Some ch \<Rightarrow> scanstring (acc @ [ch]) r))
      else if (of_char c :: nat) < 32 then Malformed
      else scanstring (acc @ [c]) cs)"

text \<open>\<open>d[key] = value\<close> on a dictionary kept in insertion order.\<close>

fun dict_set :: "string \<Rightarrow> json \<Rightarrow> (string \<times> json) list \<Rightarrow> (string \<times> json) list" where
  "dict_set k v [] = [(k, v)]"
| "dict_set k v ((k', v') # d) = (if k' = k then (k, v) # d else (k', v') # dict_set k v d)"

text \<open>\<open>dict(pairs)\<close>\<close>

definition dict_of_pairs :: "(string \<times> json) list \<Rightarrow> (string \<times> json) list" where
  "dict_of_pairs pairs = foldl (\<lambda>d kv. dict_set (fst kv) (snd kv) d) [] pairs"

text \<open>
  The scanner and the two loops it calls, for the elements of an array and the members of
  an object. The first argument bounds the number of nested calls; a scanner left without
  it answers \<open>Outside\<close>.
\<close>

fun parse_value :: "nat \<Rightarrow> string \<Rightarrow> (json \<times> string) decoded"
  and parse_items :: "nat \<Rightarrow> json list \<Rightarrow> string \<Rightarrow> (json list \<times> string) decoded"
  and parse_members ::
    "nat \<Rightarrow> (string \<times> json) list \<Rightarrow> string \<Rightarrow> ((string \<times> json) list \<times> string) decoded"
where
  "parse_value 0 s = Outside"
| "parse_value (Suc n) s =
     (case s of
        [] \<Rightarrow> Malformed
      | c # r \<Rightarrow>
          if c = CHR 0x22 then
            (case scanstring [] r of
               Decoded (str, r') \<Rightarrow> Decoded (JStr str, r')
             | Malformed \<Rightarrow> Malformed
             | Outside \<Rightarrow> Outside)
          else if c = CHR ''{'' then
            (case skip_ws r of
               [] \<Rightarrow> Malformed
             | c' # r' \<Rightarrow>
                 if c' = CHR ''}'' then Decoded (JObj [], r')
                 else if c' = CHR 0x22 then
                   (case parse_members n [] r' of
                      Decoded (pairs, r'') \<Rightarrow> Decoded (JObj (dict_of_pairs pairs), r'')
                    | Malformed \<Rightarrow> Malformed
                    | Outside \<Rightarrow> Outside)
                 else Malformed)
          else if c = CHR ''['' then
            (case skip_ws r of
               [] \<Rightarrow> Malformed
             | c' # r' \<Rightarrow>
                 if c' = CHR '']'' then Decoded (JList [], r')
                 else
                   (case parse_items n [] (c' # r') of
                      Decoded (vals, r'') \<Rightarrow> Decoded (JList vals, r'')
                    | Malformed \<Rightarrow> Malformed
                    | Outside \<Rightarrow> Outside))
          else if take 4 s = ''null'' then Decoded (JNull, drop 4 s)
          else if take 4 s = ''true'' then Decoded (JBool True, drop 4 s)
          else if take 5 s = ''false'' then Decoded (JBool False, drop 5 s)
          else scan_number s)"
| "parse_items 0 acc s = Outside"
| "parse_items (Suc n) acc s =
     (case parse_value n s of
        Malformed \<Rightarrow> Malformed
      | Outside \<Rightarrow> Outside
      | Decoded (v, r) \<Rightarrow>
          (case skip_ws r of
             [] \<Rightarrow> Malformed
           | c # r' \<Rightarrow>
               if c = CHR '']'' then Decoded (acc @ [v], r')
               else if c = CHR '','' then parse_items n (acc @ [v]) (skip_ws r')
               else Malformed))"
| "parse_members 0 acc s = Outside"
| "parse_members (Suc n) acc s =
     (case scanstring [] s of
        Malformed \<Rightarrow> Malformed
      | Outside \<Rightarrow> Outside
      | Decoded (key, r) \<Rightarrow>
          (case skip_ws r of
             [] \<Rightarrow> Malformed
           | c # r1 \<Rightarrow>
               if c \<noteq> CHR '':'' then Malformed
               else
                 (case parse_value n (skip_ws r1) of
                    Malformed \<Rightarrow> Malformed
                  | Outside \<Rightarrow> Outside
                  | Decoded (v, r2) \<Rightarrow>
                      (case skip_ws r2 of
                         [] \<Rightarrow> Malformed
                       | c' # r3 \<Rightarrow>
                           if c' = CHR ''}'' then Decoded (acc @ [(key, v)], r3)
                           else if c' = CHR '','' then
                             (case skip_ws r3 of
                                [] \<Rightarrow> Malformed
                              | q # r4 \<Rightarrow>
                                  if q = CHR 0x22 then parse_members n (acc @ [(key, v)]) r4
                                  else Malformed)
                           else Malformed))))"

text \<open>
  \<open>json.loads(s)\<close>: white space, one value, white space, and nothing more. The length of
  the text bounds the nesting.
\<close>

definition loads :: "string \<Rightarrow> json decoded" where
  "loads s =
     (case parse_value (Suc (length s)) (skip_ws s) of
        Decoded (v, r) \<Rightarrow> if skip_ws r = [] then Decoded v else Malformed
      | Malformed \<Rightarrow> Malformed
      | Outside \<Rightarrow> Outside)"

text \<open>Vocabulary for relating the encoder and the decoder.\<close>

text \<open>
  The text after a value, as the encoder leaves it: nothing, or a comma, or a closing
  bracket or brace.
\<close>

definition delimited :: "string \<Rightarrow> bool" where
  "delimited rest \<longleftrightarrow>
     (case rest of [] \<Rightarrow> True | c # r \<Rightarrow> c = CHR '','' \<or> c = CHR '']'' \<or> c = CHR ''}'')"

text \<open>How an encoded value begins: never with white space, never with a closing bracket.\<close>

definition opens_value :: "char \<Rightarrow> bool" where
  "opens_value c \<longleftrightarrow> \<not> is_ws c \<and> c \<noteq> CHR '']'' \<and> c \<noteq> CHR ''}''"

text \<open>The text of one member of an object: key, colon, value.\<close>

definition member_text :: "string \<times> json \<Rightarrow> string" where
  "member_text kv = encode_str (fst kv) @ '': '' @ dumps (snd kv)"

text \<open>
  A value all of whose dictionaries have distinct keys, as every Python dictionary has,
  and all of whose integers have at most 640 digits.
\<close>

fun wf_json :: "json \<Rightarrow> bool" where
  "wf_json (JInt i) = (length (digits (nat \<bar>i\<bar>)) \<le> 640)"
| "wf_json (JList xs) = list_all wf_json xs"
| "wf_json (JObj kvs) = (distinct (map fst kvs) \<and> list_all (\<lambda>kv. wf_json (snd kv)) kvs)"
| "wf_json v = True"

section \<open>The orchestration loop (\<open>agent.py\<close>)\<close>

text \<open>
  The loop handles the arguments and the results of the tools without looking into them:
  it passes the arguments on, and hands the result to \<open>json.dumps\<close>. So it is stated for
  any type \<open>'v\<close> of Python values, floating-point numbers and strings of any code points
  included.
\<close>

record 'v tool_use =
  tu_id :: string
  tu_name :: string
  tu_input :: 'v

text \<open>
  A content block of a model response: \<open>Other t\<close> is a block whose \<open>type\<close> is
  neither \<open>text\<close> nor \<open>tool_use\<close>.
\<close>

datatype 'v block = Text string | ToolUse "'v tool_use" | Other string

record 'v response =
  stop_reason :: string
  resp_content :: "'v block list"

record tool_result =
  tool_use_id :: string
  tr_content :: string
  is_error :: bool

datatype 'v msg_content = Plain string | Blocks "'v block list" | ToolResults "tool_result list"

record 'v message =
  role :: string
  msg_content :: "'v msg_content"

record 'v log_entry =
  log_tool :: string
  log_input :: 'v
  log_output :: string
  log_error :: bool

record 'v run_result =
  response :: string
  tool_calls :: "'v log_entry list"

text \<open>
  The registry \<open>_TOOL_DISPATCH\<close>: a tool name is bound to a callable, taken here with
  its keyword expansion \<open>fn(**inputs)\<close>. A callable reads and changes the world of the
  tools (the preference store, the places provider) and either returns a value or raises.
\<close>

type_synonym ('v, 'w) callable = "'v \<Rightarrow> 'w \<Rightarrow> (exn + 'v) \<times> 'w"
type_synonym ('v, 'w) registry = "string \<Rightarrow> ('v, 'w) callable option"

definition dispatch_tool ::
  "('v, 'w) registry \<Rightarrow> string \<Rightarrow> 'v \<Rightarrow> 'w \<Rightarrow> (exn + 'v) \<times> 'w" where
  "dispatch_tool reg name inputs w =
     (case reg name of
        None \<Rightarrow> (Inl (Exn ''ValueError'' (''Unknown tool: '' @ name)), w)
      | Some fn \<Rightarrow> fn inputs w)"

text \<open>
  \<open>json.dumps(result)\<close> as the interpreter runs it on the value of a tool: it returns the
  text or raises (\<open>TypeError\<close> on a value that is not serializable, \<open>ValueError\<close> on a
  circular reference or on an integer beyond the interpreter's limit for integer strings).
  The loop takes it as the parameter \<open>ser\<close>.
\<close>

type_synonym 'v serializer = "'v \<Rightarrow> exn + string"

text \<open>
  The body of \<open>for tu in tool_uses\<close>. The \<open>try\<close> holds the dispatch and the
  serialization of its result, so \<open>except Exception\<close> catches what either of them raises
  and serializes \<open>{"error": str(exc)}\<close> instead, a dictionary of one string, for which
  \<open>json.dumps\<close> always returns. Then come the two appends.
\<close>

definition exec_tool ::
  "'v serializer \<Rightarrow> ('v, 'w) registry \<Rightarrow> 'v tool_use \<Rightarrow> 'v log_entry list \<Rightarrow>
   tool_result list \<Rightarrow> 'w \<Rightarrow> 'v log_entry list \<times> tool_result list \<times> 'w" where
  "exec_tool ser reg tu tool_calls_log tool_results w =
     (case dispatch_tool reg (tu_name tu) (tu_input tu) w of (outcome, w') \<Rightarrow>
        (case (case (case outcome of Inr result \<Rightarrow> ser result | Inl exc \<Rightarrow> Inl exc) of
                 Inr result_content \<Rightarrow> (result_content, False)
               | Inl exc \<Rightarrow> (dumps (JObj [(''error'', JStr (exn_str exc))]), True))
         of (result_content, err) \<Rightarrow>
           (tool_calls_log @
              [\<lparr>log_tool = tu_name tu, log_input = tu_input tu,
                log_output = result_content, log_error = err\<rparr>],
            tool_results @
              [\<lparr>tool_use_id = tu_id tu, tr_content = result_content, is_error = err\<rparr>],
            w')))"

fun exec_tools ::
  "'v serializer \<Rightarrow> ('v, 'w) registry \<Rightarrow> 'v tool_use list \<Rightarrow> 'v log_entry list \<Rightarrow>
   tool_result list \<Rightarrow> 'w \<Rightarrow> 'v log_entry list \<times> tool_result list \<times> 'w" where
  "exec_tools ser reg [] tool_calls_log tool_results w = (tool_calls_log, tool_results, w)"
| "exec_tools ser reg (tu # tus) tool_calls_log tool_results w =
     (case exec_tool ser reg tu tool_calls_log tool_results w of
        (tool_calls_log', tool_results', w') \<Rightarrow>
          exec_tools ser reg tus tool_calls_log' tool_results' w')"

text \<open>\<open>[block for block in response.content if block.type == "tool_use"]\<close>\<close>

fun tool_uses_of :: "'v block list \<Rightarrow> 'v tool_use list" where
  "tool_uses_of [] = []"
| "tool_uses_of (ToolUse tu # bs) = tu # tool_uses_of bs"
| "tool_uses_of (b # bs) = tool_uses_of bs"

text \<open>\<open>[block.text for block in response.content if block.type == "text"]\<close>\<close>

fun text_blocks_of :: "'v block list \<Rightarrow> string list" where
  "text_blocks_of [] = []"
| "text_blocks_of (Text t # bs) = t # text_blocks_of bs"
| "text_blocks_of (b # bs) = text_blocks_of bs"

text \<open>
  The \<open>while True\<close> loop of \<open>run\<close>. The inference call \<open>client.messages.create\<close> is
  the parameter \<open>create\<close>: it reads the transcript and returns a response or raises.
  The transcript grows with every pass, so no run calls it twice on the same transcript,
  and a function of the transcript can stand for any sequence of answers.
  The loop may run forever, so it is a partial function: \<open>None\<close> is "never returns".
  Besides the outcome the model returns the transcript and the world the loop ended with.
\<close>

partial_function (option) agent_loop ::
  "'v serializer \<Rightarrow> ('v, 'w) registry \<Rightarrow> ('v message list \<Rightarrow> exn + 'v response) \<Rightarrow>
   'v message list \<Rightarrow> 'v log_entry list \<Rightarrow> 'w
     \<Rightarrow> ((exn + 'v run_result) \<times> 'v message list \<times> 'w) option" where
  "agent_loop ser reg create messages tool_calls_log w =
     (case create messages of
        Inl exc \<Rightarrow> Some (Inl exc, messages, w)
      | Inr resp \<Rightarrow>
          (let tool_uses = tool_uses_of (resp_content resp) in
           if stop_reason resp = ''end_turn'' \<or> tool_uses = [] then
             Some (Inr \<lparr>response = join [CHR 0x0A] (text_blocks_of (resp_content resp)),
                        tool_calls = tool_calls_log\<rparr>, messages, w)
           else
             (case exec_tools ser reg tool_uses tool_calls_log [] w of
                (tool_calls_log', tool_results, w') \<Rightarrow>
                  agent_loop ser reg create
                    (messages @
                       [\<lparr>role = ''assistant'', msg_content = Blocks (resp_content resp)\<rparr>] @
                       [\<lparr>role = ''user'', msg_content = ToolResults tool_results\<rparr>])
                    tool_calls_log' w')))"

definition seed :: "string \<Rightarrow> string \<Rightarrow> string \<Rightarrow> 'v message list" where
  "seed user_id message location =
     [\<lparr>role = ''user'',
       msg_content = Plain (''[user_id='' @ user_id @ ''] [location='' @ location @ '']'' @
                            [CHR 0x0A, CHR 0x0A] @ message)\<rparr>]"

definition run ::
  "'v serializer \<Rightarrow> ('v, 'w) registry \<Rightarrow> ('v message list \<Rightarrow> exn + 'v response) \<Rightarrow>
   string \<Rightarrow> string \<Rightarrow> string \<Rightarrow> 'w
     \<Rightarrow> ((exn + 'v run_result) \<times> 'v message list \<times> 'w) option" where
  "run ser reg create user_id message location w =
     agent_loop ser reg create (seed user_id message location) [] w"


subsection \<open>Vocabulary for stating what a cycle does\<close>

text \<open>The payload serialized when the \<open>try\<close> raised: \<open>{"error": str(exc)}\<close>.\<close>

definition error_payload :: "exn \<Rightarrow> json" where
  "error_payload exc = JObj [(''error'', JStr (exn_str exc))]"

text \<open>
  What the \<open>try\<close> ends with, given the outcome of the dispatch: the text of the value
  returned, or the exception raised by the callable or by the serialization.
\<close>

fun attempt :: "'v serializer \<Rightarrow> exn + 'v \<Rightarrow> exn + string" where
  "attempt ser (Inr result) = ser result"
| "attempt ser (Inl exc) = Inl exc"

text \<open>The serialized output and the error flag that the \<open>try\<close>/\<open>except\<close> leaves.\<close>

definition serialize_outcome :: "'v serializer \<Rightarrow> exn + 'v \<Rightarrow> string \<times> bool" where
  "serialize_outcome ser outcome =
     (case attempt ser outcome of
        Inr result_content \<Rightarrow> (result_content, False)
      | Inl exc \<Rightarrow> (dumps (error_payload exc), True))"

text \<open>
  The outcomes of dispatching a batch of tool-requests one after the other, each in the
  world its predecessors left, and the world after the whole batch.
\<close>

fun outcomes :: "('v, 'w) registry \<Rightarrow> 'v tool_use list \<Rightarrow> 'w \<Rightarrow> (exn + 'v) list" where
  "outcomes reg [] w = []"
| "outcomes reg (tu # tus) w =
     (case dispatch_tool reg (tu_name tu) (tu_input tu) w of
        (outcome, w') \<Rightarrow> outcome # outcomes reg tus w')"

fun world_after :: "('v, 'w) registry \<Rightarrow> 'v tool_use list \<Rightarrow> 'w \<Rightarrow> 'w" where
  "world_after reg [] w = w"
| "world_after reg (tu # tus) w =
     world_after reg tus (snd (dispatch_tool reg (tu_name tu) (tu_input tu) w))"

definition entry_of :: "'v serializer \<Rightarrow> 'v tool_use \<Rightarrow> exn + 'v \<Rightarrow> 'v log_entry" where
  "entry_of ser tu outcome =
     \<lparr>log_tool = tu_name tu, log_input = tu_input tu,
      log_output = fst (serialize_outcome ser outcome),
      log_error = snd (serialize_outcome ser outcome)\<rparr>"

definition result_of :: "'v serializer \<Rightarrow> 'v tool_use \<Rightarrow> exn + 'v \<Rightarrow> tool_result" where
  "result_of ser tu outcome =
     \<lparr>tool_use_id = tu_id tu, tr_content = fst (serialize_outcome ser outcome),
      is_error = snd (serialize_outcome ser outcome)\<rparr>"


text \<open>The exit test of the loop: \<open>response.stop_reason == "end_turn" or not tool_uses\<close>.\<close>

definition final :: "'v response \<Rightarrow> bool" where
  "final resp \<longleftrightarrow> stop_reason resp = ''end_turn'' \<or> tool_uses_of (resp_content resp) = []"

text \<open>The Run Result built at the exit.\<close>

definition result_at :: "'v response \<Rightarrow> 'v log_entry list \<Rightarrow> 'v run_result" where
  "result_at resp tool_calls_log =
     \<lparr>response = join [CHR 0x0A] (text_blocks_of (resp_content resp)),
      tool_calls = tool_calls_log\<rparr>"

text \<open>
  One pass through the part of the loop body after the exit test: the transcript, the log
  and the world with which the next inference call is made.
\<close>

definition loop_step ::
  "'v serializer \<Rightarrow> ('v, 'w) registry \<Rightarrow> 'v response \<Rightarrow> 'v message list \<Rightarrow>
   'v log_entry list \<Rightarrow> 'w \<Rightarrow> 'v message list \<times> 'v log_entry list \<times> 'w" where
  "loop_step ser reg resp messages tool_calls_log w =
     (let tus = tool_uses_of (resp_content resp) in
      (messages @
         [\<lparr>role = ''assistant'', msg_content = Blocks (resp_content resp)\<rparr>,
          \<lparr>role = ''user'',
           msg_content = ToolResults (map2 (result_of ser) tus (outcomes reg tus w))\<rparr>],
       tool_calls_log @ map2 (entry_of ser) tus (outcomes reg tus w),
       world_after reg tus w))"

text \<open>All tool-requests and all tool-results of a transcript, in transcript order.\<close>

fun requests_of :: "'v message list \<Rightarrow> 'v tool_use list" where
  "requests_of [] = []"
| "requests_of (m # ms) =
     (case msg_content m of Blocks bs \<Rightarrow> tool_uses_of bs | _ \<Rightarrow> []) @ requests_of ms"

fun results_of :: "'v message list \<Rightarrow> tool_result list" where
  "results_of [] = []"
| "results_of (m # ms) =
     (case msg_content m of ToolResults rs \<Rightarrow> rs | _ \<Rightarrow> []) @ results_of ms"

text \<open>
  A transcript is paired when every message of content blocks is directly followed by a
  message of tool-results that answers its tool-requests one by one, in the same order
  and under the same identifiers.
\<close>

fun paired :: "'v message list \<Rightarrow> bool" where
  "paired [] = True"
| "paired [m] = (case msg_content m of Blocks bs \<Rightarrow> False | _ \<Rightarrow> True)"
| "paired (m # m' # ms) =
     (case msg_content m of
        Blocks bs \<Rightarrow>
          (case msg_content m' of
             ToolResults rs \<Rightarrow> map tool_use_id rs = map tu_id (tool_uses_of bs) \<and> paired ms
           | _ \<Rightarrow> False)
      | _ \<Rightarrow> paired (m' # ms))"

text \<open>
  The log matches a transcript when its entries are, in order, the tool-requests of the
  transcript (name and input) and the tool-results of the transcript (output and flag).
\<close>

definition log_matches :: "'v message list \<Rightarrow> 'v log_entry list \<Rightarrow> bool" where
  "log_matches ms lg \<longleftrightarrow>
     map log_tool lg = map tu_name (requests_of ms) \<and>
     map log_input lg = map tu_input (requests_of ms) \<and>
     map log_output lg = map tr_content (results_of ms) \<and>
     map log_error lg = map is_error (results_of ms)"

section \<open>The HTTP endpoint (\<open>server.py\<close>)\<close>

record run_request =
  req_user_id :: string
  req_message :: string
  req_location :: string

datatype http_exception = HTTPException (status_code: nat) (detail: string)

text \<open>
  \<open>POST /run\<close>: the Run Result becomes the response body; any exception out of the loop
  becomes \<open>HTTPException(500, str(exc))\<close>.
\<close>

definition server_run ::
  "'v serializer \<Rightarrow> ('v, 'w) registry \<Rightarrow> ('v message list \<Rightarrow> exn + 'v response) \<Rightarrow>
   run_request \<Rightarrow> 'w \<Rightarrow> ((http_exception + 'v run_result) \<times> 'w) option" where
  "server_run ser reg create req w =
     (case run ser reg create (req_user_id req) (req_message req) (req_location req) w of
        None \<Rightarrow> None
      | Some (Inr result, ms, w') \<Rightarrow> Some (Inr result, w')
      | Some (Inl exc, ms, w') \<Rightarrow> Some (Inl (HTTPException 500 (exn_str exc)), w'))"


section \<open>The preference tools (\<open>tools/prefs.py\<close>, \<open>memory/store.py\<close>)\<close>

text \<open>
  A row of the \<open>preferences\<close> table. A list column and the price column are nullable.
  The row number and the time stamps, which no tool reads, are left out.
\<close>

record preference =
  pref_user_id :: string
  cuisines_liked :: "string list option"
  cuisines_disliked :: "string list option"
  dietary_restrictions :: "string list option"
  price_range :: "string option"
  liked_place_ids :: "string list option"
  disliked_place_ids :: "string list option"

text \<open>The database: the identifiers of the \<open>users\<close> table and the preference rows.\<close>

record store =
  users :: "string list"
  preferences :: "preference list"

text \<open>\<open>session.query(Preference).filter_by(user_id=user_id).first()\<close>\<close>

definition first_pref :: "string \<Rightarrow> store \<Rightarrow> preference option" where
  "first_pref user_id db = find (\<lambda>p. pref_user_id p = user_id) (preferences db)"

text \<open>\<open>Preference(user_id=user_id)\<close>: no column set yet.\<close>

definition new_pref :: "string \<Rightarrow> preference" where
  "new_pref user_id =
     \<lparr>pref_user_id = user_id, cuisines_liked = None, cuisines_disliked = None,
      dietary_restrictions = None, price_range = None, liked_place_ids = None,
      disliked_place_ids = None\<rparr>"

text \<open>\<open>value or []\<close>\<close>

definition or_empty :: "string list option \<Rightarrow> string list" where
  "or_empty v = (case v of None \<Rightarrow> [] | Some xs \<Rightarrow> xs)"

text \<open>
  The INSERT of a new row fills every list column that was never set with the column
  default \<open>list\<close>, the empty list.
\<close>

definition insert_defaults :: "preference \<Rightarrow> preference" where
  "insert_defaults p =
     p\<lparr>cuisines_liked := Some (or_empty (cuisines_liked p)),
       cuisines_disliked := Some (or_empty (cuisines_disliked p)),
       dietary_restrictions := Some (or_empty (dietary_restrictions p)),
       liked_place_ids := Some (or_empty (liked_place_ids p)),
       disliked_place_ids := Some (or_empty (disliked_place_ids p))\<rparr>"

text \<open>The UPDATE of the row that \<open>first()\<close> returned.\<close>

fun update_first :: "string \<Rightarrow> preference \<Rightarrow> preference list \<Rightarrow> preference list" where
  "update_first user_id p [] = []"
| "update_first user_id p (q # qs) =
     (if pref_user_id q = user_id then p # qs else q # update_first user_id p qs)"

text \<open>
  \<open>save_preference\<close>. Python's \<open>list(set(existing) | set(new))\<close> yields the elements of
  the union once each, in an order the language leaves open; the parameter \<open>union_list\<close>
  stands for that enumeration.
\<close>

definition save_preference ::
  "(string list \<Rightarrow> string list \<Rightarrow> string list) \<Rightarrow> string \<Rightarrow>
   string list option \<Rightarrow> string list option \<Rightarrow> string list option \<Rightarrow> string option \<Rightarrow>
   string list option \<Rightarrow> string list option \<Rightarrow> store \<Rightarrow> json \<times> store" where
  "save_preference union_list user_id cuisines_liked_arg cuisines_disliked_arg
       dietary_restrictions_arg price_range_arg liked_place_ids_arg disliked_place_ids_arg db =
     (let users' = (if user_id \<in> set (users db) then users db else users db @ [user_id]);
          found = first_pref user_id db;
          pref = (case found of None \<Rightarrow> new_pref user_id | Some p \<Rightarrow> p);
          pref = (case cuisines_liked_arg of None \<Rightarrow> pref
                  | Some new \<Rightarrow>
                      pref\<lparr>cuisines_liked :=
                             Some (union_list (or_empty (cuisines_liked pref)) new)\<rparr>);
          pref = (case cuisines_disliked_arg of None \<Rightarrow> pref
                  | Some new \<Rightarrow>
                      pref\<lparr>cuisines_disliked :=
                             Some (union_list (or_empty (cuisines_disliked pref)) new)\<rparr>);
          pref = (case dietary_restrictions_arg of None \<Rightarrow> pref
                  | Some new \<Rightarrow>
                      pref\<lparr>dietary_restrictions :=
                             Some (union_list (or_empty (dietary_restrictions pref)) new)\<rparr>);
          pref = (case price_range_arg of None \<Rightarrow> pref
                  | Some new \<Rightarrow> pref\<lparr>price_range := Some new\<rparr>);
          pref = (case liked_place_ids_arg of None \<Rightarrow> pref
                  | Some new \<Rightarrow>
                      pref\<lparr>liked_place_ids :=
                             Some (union_list (or_empty (liked_place_ids pref)) new)\<rparr>);
          pref = (case disliked_place_ids_arg of None \<Rightarrow> pref
                  | Some new \<Rightarrow>
                      pref\<lparr>disliked_place_ids :=
                             Some (union_list (or_empty (disliked_place_ids pref)) new)\<rparr>);
          preferences' = (case found of
                            None \<Rightarrow> preferences db @ [insert_defaults pref]
                          | Some p \<Rightarrow> update_first user_id pref (preferences db))
      in (JObj [(''status'', JStr ''ok''), (''user_id'', JStr user_id)],
          \<lparr>users = users', preferences = preferences'\<rparr>))"

definition get_preferences :: "string \<Rightarrow> store \<Rightarrow> json" where
  "get_preferences user_id db =
     (case first_pref user_id db of
        None \<Rightarrow>
          JObj [(''user_id'', JStr user_id),
                (''cuisines_liked'', JList []),
                (''cuisines_disliked'', JList []),
                (''dietary_restrictions'', JList []),
                (''price_range'', JNull),
                (''liked_place_ids'', JList []),
                (''disliked_place_ids'', JList [])]
      | Some pref \<Rightarrow>
          JObj [(''user_id'', JStr user_id),
                (''cuisines_liked'', JList (map JStr (or_empty (cuisines_liked pref)))),
                (''cuisines_disliked'', JList (map JStr (or_empty (cuisines_disliked pref)))),
                (''dietary_restrictions'',
                   JList (map JStr (or_empty (dietary_restrictions pref)))),
                (''price_range'',
                   (case price_range pref of None \<Rightarrow> JNull | Some v \<Rightarrow> JStr v)),
                (''liked_place_ids'', JList (map JStr (or_empty (liked_place_ids pref)))),
                (''disliked_place_ids'',
                   JList (map JStr (or_empty (disliked_place_ids pref))))])"

text \<open>
  What \<open>list(set(a) | set(b))\<close> guarantees about the enumeration: the elements of the
  union, none twice.
\<close>

definition enumerates_union :: "(string list \<Rightarrow> string list \<Rightarrow> string list) \<Rightarrow> bool" where
  "enumerates_union union_list \<longleftrightarrow>
     (\<forall>a b. set (union_list a b) = set a \<union> set b \<and> distinct (union_list a b))"

text \<open>The list a user's record holds in a column, as \<open>get_preferences\<close> reports it.\<close>

definition stored_list ::
  "(preference \<Rightarrow> string list option) \<Rightarrow> string \<Rightarrow> store \<Rightarrow> string list" where
  "stored_list column user_id db =
     (case first_pref user_id db of None \<Rightarrow> [] | Some p \<Rightarrow> or_empty (column p))"

definition stored_price :: "string \<Rightarrow> store \<Rightarrow> string option" where
  "stored_price user_id db =
     (case first_pref user_id db of None \<Rightarrow> None | Some p \<Rightarrow> price_range p)"


text \<open>A column after an upsert holds the union of what it held and what was passed, once each.\<close>

definition merged :: "string list \<Rightarrow> string list \<Rightarrow> string list \<Rightarrow> bool" where
  "merged before new after \<longleftrightarrow> set after = set before \<union> set new \<and> distinct after"

section \<open>The places tool (\<open>tools/places.py\<close>)\<close>

text \<open>
  The \<open>googlemaps\<close> client, an external collaborator, as the two requests the search
  makes. \<open>geocode\<close> returns the list of matches, each a dictionary. \<open>places\<close> (query,
  location, radius, type) returns the decoded body, given here by its \<open>results\<close> entry:
  \<open>None\<close> when the body has no such key, else the list of place dictionaries. Either
  request may raise.
\<close>

record gmaps =
  geocode :: "string \<Rightarrow> exn + (string \<times> json) list list"
  places :: "string \<Rightarrow> json \<Rightarrow> int \<Rightarrow> string \<Rightarrow> exn + (string \<times> json) list list option"

text \<open>
  What \<open>_get_client\<close> reads and writes: the environment variable, the module global
  \<open>_client\<close>, and the constructor \<open>googlemaps.Client(key=...)\<close>.
\<close>

record places_env =
  env_api_key :: "string option"
  client_global :: "gmaps option"
  make_client :: "string \<Rightarrow> exn + gmaps"

definition get_client :: "places_env \<Rightarrow> (exn + gmaps) \<times> places_env" where
  "get_client env =
     (case client_global env of
        Some c \<Rightarrow> (Inr c, env)
      | None \<Rightarrow>
          (case env_api_key env of
             None \<Rightarrow>
               (Inl (Exn ''RuntimeError''
                       ''GOOGLE_PLACES_API_KEY environment variable is not set''), env)
           | Some api_key \<Rightarrow>
               if api_key = [] then
                 (Inl (Exn ''RuntimeError''
                         ''GOOGLE_PLACES_API_KEY environment variable is not set''), env)
               else
                 (case make_client env api_key of
                    Inl exc \<Rightarrow> (Inl exc, env)
                  | Inr c \<Rightarrow> (Inr c, env\<lparr>client_global := Some c\<rparr>))))"

definition type_name :: "json \<Rightarrow> string" where
  "type_name v =
     (case v of JNull \<Rightarrow> ''NoneType'' | JBool b \<Rightarrow> ''bool'' | JInt i \<Rightarrow> ''int''
      | JStr s \<Rightarrow> ''str'' | JList xs \<Rightarrow> ''list'' | JObj kvs \<Rightarrow> ''dict'')"

definition quoted :: "string \<Rightarrow> string" where
  "quoted s = CHR 0x27 # s @ [CHR 0x27]"

text \<open>
  \<open>value[key]\<close> for one of the literal keys of the source: the entry of a dictionary,
  \<open>KeyError\<close> when it has none, \<open>TypeError\<close> on any other value (the messages are
  those of CPython 3.11).
\<close>

definition getitem :: "json \<Rightarrow> string \<Rightarrow> exn + json" where
  "getitem v key =
     (case v of
        JObj kvs \<Rightarrow>
          (case map_of kvs key of
             None \<Rightarrow> Inl (Exn ''KeyError'' (quoted key))
           | Some x \<Rightarrow> Inr x)
      | JList xs \<Rightarrow> Inl (Exn ''TypeError'' ''list indices must be integers or slices, not str'')
      | JStr s \<Rightarrow>
          Inl (Exn ''TypeError'' (''string indices must be integers, not '' @ quoted ''str''))
      | _ \<Rightarrow> Inl (Exn ''TypeError'' (quoted (type_name v) @ '' object is not subscriptable'')))"

text \<open>\<open>d.get(key, default)\<close> on a dictionary.\<close>

definition dict_get :: "(string \<times> json) list \<Rightarrow> string \<Rightarrow> json \<Rightarrow> json" where
  "dict_get d key dflt = (case map_of d key of None \<Rightarrow> dflt | Some x \<Rightarrow> x)"

text \<open>
  The dictionary appended for one place. Only \<open>place.get("geometry", {}).get("location")\<close>
  can raise: when the \<open>geometry\<close> entry is not a dictionary.
\<close>

definition place_record :: "(string \<times> json) list \<Rightarrow> exn + json" where
  "place_record place =
     (case (case map_of place ''geometry'' of
              None \<Rightarrow> Inr JNull
            | Some (JObj g) \<Rightarrow> Inr (dict_get g ''location'' JNull)
            | Some v \<Rightarrow>
                Inl (Exn ''AttributeError''
                       (quoted (type_name v) @ '' object has no attribute '' @ quoted ''get'')))
      of
        Inl exc \<Rightarrow> Inl exc
      | Inr loc \<Rightarrow>
          Inr (JObj [(''place_id'', dict_get place ''place_id'' JNull),
                     (''name'', dict_get place ''name'' JNull),
                     (''address'', dict_get place ''formatted_address'' JNull),
                     (''rating'', dict_get place ''rating'' JNull),
                     (''price_level'', dict_get place ''price_level'' JNull),
                     (''types'', dict_get place ''types'' (JList [])),
                     (''location'', loc)]))"

text \<open>The \<open>for place in ...\<close> loop, appending to \<open>places\<close>.\<close>

fun collect_places :: "(string \<times> json) list list \<Rightarrow> json list \<Rightarrow> exn + json list" where
  "collect_places [] acc = Inr acc"
| "collect_places (place # rest) acc =
     (case place_record place of
        Inl exc \<Rightarrow> Inl exc
      | Inr r \<Rightarrow> collect_places rest (acc @ [r]))"

definition search_restaurants ::
  "string \<Rightarrow> string \<Rightarrow> int \<Rightarrow> places_env \<Rightarrow> (exn + json list) \<times> places_env" where
  "search_restaurants query location radius env =
     (case get_client env of
        (Inl exc, env') \<Rightarrow> (Inl exc, env')
      | (Inr client, env') \<Rightarrow>
          (case geocode client location of
             Inl exc \<Rightarrow> (Inl exc, env')
           | Inr [] \<Rightarrow> (Inr [], env')
           | Inr (first # others) \<Rightarrow>
               (case getitem (JObj first) ''geometry'' of
                  Inl exc \<Rightarrow> (Inl exc, env')
                | Inr geometry \<Rightarrow>
                    (case getitem geometry ''location'' of
                       Inl exc \<Rightarrow> (Inl exc, env')
                     | Inr latlng \<Rightarrow>
                         (case places client (''restaurant '' @ query) latlng radius
                                 ''restaurant'' of
                            Inl exc \<Rightarrow> (Inl exc, env')
                          | Inr results \<Rightarrow>
                              (collect_places
                                 (take 10 (case results of None \<Rightarrow> [] | Some ps \<Rightarrow> ps)) [],
                               env'))))))"

section \<open>Test doubles\<close>

text \<open>
  A provider that answers the \<open>k\<close>-th inference call of a run with the \<open>k\<close>-th element of
  a script (the transcript of that call has \<open>2k + 1\<close> messages), and raises once the
  script is used up.
\<close>

definition scripted ::
  "(exn + 'v response) list \<Rightarrow> 'v message list \<Rightarrow> exn + 'v response" where
  "scripted script messages =
     (if length messages div 2 < length script then script ! (length messages div 2)
      else Inl (Exn ''StopIteration'' []))"

text \<open>A callable that ignores its arguments and the world: it returns or raises as told.\<close>

definition stub_tool :: "exn + 'v \<Rightarrow> ('v, 'w) callable" where
  "stub_tool outcome inputs w = (outcome, w)"

text \<open>
  A serializer for the values without floating-point numbers, with the limit for integer
  strings that the interpreter has by default: the text of the value, refused when the
  value holds an integer of more than 4300 digits.
\<close>

definition max_str_digits :: nat where
  "max_str_digits = 4300"

fun within_limit :: "json \<Rightarrow> bool" where
  "within_limit (JInt i) = (\<bar>i\<bar> < 10 ^ max_str_digits)"
| "within_limit (JList xs) = list_all within_limit xs"
| "within_limit (JObj kvs) = list_all (\<lambda>kv. within_limit (snd kv)) kvs"
| "within_limit v = True"

definition digit_limit :: exn where
  "digit_limit =
     Exn ''ValueError''
       (''Exceeds the limit (4300 digits) for integer string conversion; '' @
        ''use sys.set_int_max_str_digits() to increase the limit'')"

definition json_ser :: "json serializer" where
  "json_ser v = (if within_limit v then Inr (dumps v) else Inl digit_limit)"

text \<open>An enumeration of a union without repetition, one of those Python may produce.\<close>

definition union_in_order :: "string list \<Rightarrow> string list \<Rightarrow> string list" where
  "union_in_order a b = remdups (a @ b)"

text \<open>
  A scenario: a response that asks for three tools, of which the second raises for a
  missing provider key and the third is not registered, and the batch it must produce.
\<close>

definition req_prefs :: "json tool_use" where
  "req_prefs = \<lparr>tu_id = ''toolu_A'', tu_name = ''get_preferences'',
                 tu_input = JObj [(''user_id'', JStr ''u1'')]\<rparr>"

definition req_search :: "json tool_use" where
  "req_search = \<lparr>tu_id = ''toolu_B'', tu_name = ''search_restaurants'',
                  tu_input = JObj [(''query'', JStr ''ramen''),
                                   (''location'', JStr ''San Francisco, CA'')]\<rparr>"

definition req_unknown :: "json tool_use" where
  "req_unknown = \<lparr>tu_id = ''toolu_C'', tu_name = ''book_table'', tu_input = JObj []\<rparr>"

definition missing_key :: exn where
  "missing_key = Exn ''RuntimeError'' ''GOOGLE_PLACES_API_KEY environment variable is not set''"

definition demo_registry :: "(json, unit) registry" where
  "demo_registry =
     [''get_preferences'' \<mapsto> stub_tool (Inr (JObj [(''price_range'', JNull)])),
      ''search_restaurants'' \<mapsto> stub_tool (Inl missing_key)]"

definition three_requests :: "json response" where
  "three_requests =
     \<lparr>stop_reason = ''tool_use'',
      resp_content = [Text ''Let me check.'', ToolUse req_prefs, ToolUse req_search,
                      ToolUse req_unknown]\<rparr>"

definition closing :: "json response" where
  "closing = \<lparr>stop_reason = ''end_turn'', resp_content = [Text ''Search is unavailable.'']\<rparr>"

definition demo_log :: "json log_entry list" where
  "demo_log =
     [\<lparr>log_tool = ''get_preferences'', log_input = JObj [(''user_id'', JStr ''u1'')],
       log_output = dumps (JObj [(''price_range'', JNull)]), log_error = False\<rparr>,
      \<lparr>log_tool = ''search_restaurants'',
       log_input = JObj [(''query'', JStr ''ramen''), (''location'', JStr ''San Francisco, CA'')],
       log_output = dumps (JObj [(''error'',
          JStr ''GOOGLE_PLACES_API_KEY environment variable is not set'')]),
       log_error = True\<rparr>,
      \<lparr>log_tool = ''book_table'', log_input = JObj [],
       log_output = dumps (JObj [(''error'', JStr ''Unknown tool: book_table'')]),
       log_error = True\<rparr>]"

definition demo_results :: "tool_result list" where
  "demo_results =
     [\<lparr>tool_use_id = ''toolu_A'', tr_content = dumps (JObj [(''price_range'', JNull)]),
       is_error = False\<rparr>,
      \<lparr>tool_use_id = ''toolu_B'',
       tr_content = dumps (JObj [(''error'',
          JStr ''GOOGLE_PLACES_API_KEY environment variable is not set'')]),
       is_error = True\<rparr>,
      \<lparr>tool_use_id = ''toolu_C'',
       tr_content = dumps (JObj [(''error'', JStr ''Unknown tool: book_table'')]),
       is_error = True\<rparr>]"

definition demo_transcript :: "json message list" where
  "demo_transcript =
     seed ''u1'' ''Find me ramen'' ''San Francisco, CA'' @
     [\<lparr>role = ''assistant'', msg_content = Blocks (resp_content three_requests)\<rparr>,
      \<lparr>role = ''user'', msg_content = ToolResults demo_results\<rparr>]"

text \<open>A response that declares the end of the turn and still carries a tool-request.\<close>

definition hasty :: "json response" where
  "hasty = \<lparr>stop_reason = ''end_turn'', resp_content = [Text ''Done.'', ToolUse req_prefs]\<rparr>"





text \<open>
  Stores: an empty one, and one in which \<open>user3\<close> has saved a cuisine and a price range.
\<close>

definition empty_store :: store where
  "empty_store = \<lparr>users = [], preferences = []\<rparr>"

definition thai_store :: store where
  "thai_store =
     snd (save_preference union_in_order ''user3'' (Some [''Thai'']) None None (Some ''$$$'')
            None None empty_store)"

text \<open>
  A places client that knows one city and answers every search there with twelve copies
  of one place (coordinates rounded to integers), already installed as the module global.
\<close>

definition ramen_house :: "(string \<times> json) list" where
  "ramen_house =
     [(''place_id'', JStr ''ChIJtest1''), (''name'', JStr ''Ramen House''),
      (''formatted_address'', JStr ''123 Main St, San Francisco, CA''),
      (''price_level'', JInt 2), (''types'', JList [JStr ''restaurant'', JStr ''food'']),
      (''geometry'', JObj [(''location'', JObj [(''lat'', JInt 37), (''lng'', JInt (- 122))])])]"

definition mock_gmaps :: gmaps where
  "mock_gmaps =
     \<lparr>geocode = (\<lambda>location.
        if location = ''San Francisco, CA''
        then Inr [[(''geometry'',
               JObj [(''location'', JObj [(''lat'', JInt 37), (''lng'', JInt (- 122))])])]]
        else Inr []),
      places = (\<lambda>query location radius type. Inr (Some (replicate 12 ramen_house)))\<rparr>"

definition mock_env :: places_env where
  "mock_env =
     \<lparr>env_api_key = None, client_global = Some mock_gmaps,
      make_client = (\<lambda>key. Inl (Exn ''ValueError'' ''Invalid API key provided.''))\<rparr>"

definition ramen_record :: json where
  "ramen_record =
     JObj [(''place_id'', JStr ''ChIJtest1''), (''name'', JStr ''Ramen House''),
           (''address'', JStr ''123 Main St, San Francisco, CA''),
           (''rating'', JNull), (''price_level'', JInt 2),
           (''types'', JList [JStr ''restaurant'', JStr ''food'']),
           (''location'', JObj [(''lat'', JInt 37), (''lng'', JInt (- 122))])]"

section \<open>The decoder reads back what the encoder writes\<close>

lemma hex_val_hex_char: "d < 16 \<Longrightarrow> hex_val (hex_char d) = Some d"
  by (auto simp: hex_val_def hex_char_def of_char_of Let_def)

lemma hex_val_zero: "hex_val (CHR ''0'') = Some 0"
  by (simp add: hex_val_def)

lemma hex4_escape:
  assumes "n < 256"
  shows "hex4 (CHR ''0'') (CHR ''0'') (hex_char (n div 16)) (hex_char (n mod 16)) = Some n"
proof -
  from assms have "n div 16 < 16" by simp
  then show ?thesis
    by (simp add: hex4_def hex_val_hex_char hex_val_zero)
qed

lemma scanstring_escape:
  "scanstring acc (escape_char c @ rest) = scanstring (acc @ [c]) rest"
proof -
  have n: "(of_char c :: nat) < 256" by (rule nat_of_char_less_256)
  show ?thesis
    using hex4_escape [OF n]
    by (auto simp: escape_char_def unescape_def)
qed

lemma scanstring_body:
  "scanstring acc (concat (map escape_char s) @ CHR 0x22 # rest) = Decoded (acc @ s, rest)"
  by (induction s arbitrary: acc) (simp_all add: scanstring_escape)


lemma is_digit_digit_char: "d < 10 \<Longrightarrow> is_digit (digit_char d)"
  by (simp add: is_digit_def digit_char_def of_char_of)

lemma digit_val_digit_char: "d < 10 \<Longrightarrow> digit_val (digit_char d) = d"
  by (simp add: digit_val_def digit_char_def of_char_of)

lemma char_eq_nat: "c = d \<longleftrightarrow> (of_char c :: nat) = of_char d"
  by (simp add: of_char_eq_iff)

lemma digit_char_zero:
  assumes "d < 10"
  shows "digit_char d = CHR ''0'' \<longleftrightarrow> d = 0"
proof -
  from assms have "(of_char (digit_char d) :: nat) = 48 + d"
    by (simp add: digit_char_def of_char_of)
  moreover have "digit_char d = CHR ''0'' \<longleftrightarrow> (of_char (digit_char d) :: nat) = of_char (CHR ''0'')"
    by (rule char_eq_nat)
  ultimately show ?thesis by simp
qed

lemma digits_all: "\<forall>c \<in> set (digits n). is_digit c"
  by (induction n rule: digits.induct) (subst digits.simps, simp add: is_digit_digit_char)

lemma digits_not_Nil: "digits n \<noteq> []"
  by (subst digits.simps) simp

lemma nat_of_digits_snoc: "nat_of_digits (ds @ [c]) = 10 * nat_of_digits ds + digit_val c"
  by (simp add: nat_of_digits_def)

lemma nat_of_digits_digits: "nat_of_digits (digits n) = n"
proof (induction n rule: digits.induct)
  case (1 n)
  show ?case
  proof (cases "n < 10")
    case True
    then show ?thesis
      by (subst digits.simps) (simp add: nat_of_digits_def digit_val_digit_char)
  next
    case False
    with 1 show ?thesis
      by (subst digits.simps) (simp add: nat_of_digits_snoc digit_val_digit_char)
  qed
qed

lemma hd_digits_zero: "hd (digits n) = CHR ''0'' \<longleftrightarrow> n = 0"
proof (induction n rule: digits.induct)
  case (1 n)
  show ?case
  proof (cases "n < 10")
    case True
    then show ?thesis
      by (subst digits.simps) (simp add: digit_char_zero)
  next
    case False
    then have "n div 10 \<noteq> 0" by simp
    with 1 False show ?thesis
      by (subst digits.simps) (simp add: digits_not_Nil)
  qed
qed

lemma digits_zero: "digits 0 = ''0''"
  by (subst digits.simps) (simp add: digit_char_zero)

lemma delimited_not_digit: "delimited (c # r) \<Longrightarrow> \<not> is_digit c"
  by (auto simp: delimited_def is_digit_def)

lemma delimited_no_number:
  assumes "delimited rest"
  shows "\<not> has_frac rest" and "\<not> has_exp rest"
  using assms
  by (auto simp: delimited_def has_frac_def has_exp_def split: list.splits)

lemma delimited_digits:
  assumes "delimited rest" and "\<forall>c\<in>set ds. is_digit c"
  shows "takeWhile is_digit (ds @ rest) = ds" and "dropWhile is_digit (ds @ rest) = rest"
proof -
  have "takeWhile is_digit rest = []" and "dropWhile is_digit rest = rest"
    using assms(1) by (cases rest; simp add: delimited_not_digit)+
  with assms(2) show "takeWhile is_digit (ds @ rest) = ds"
    and "dropWhile is_digit (ds @ rest) = rest"
    by (simp_all add: takeWhile_append dropWhile_append)
qed

lemma scan_number_nat:
  assumes "delimited rest" and "length (digits n) \<le> 640"
  shows "scan_number (digits n @ rest) = Decoded (JInt (int n), rest)"
proof -
  obtain d ds where ds: "digits n = d # ds"
    using digits_not_Nil [of n] by (cases "digits n") auto
  have all: "is_digit d" "\<forall>c\<in>set ds. is_digit c"
    using digits_all [of n] by (simp_all add: ds)
  have m: "d \<noteq> CHR ''-''" using all(1) by (auto simp: is_digit_def)
  from assms(2) have len: "\<not> 640 < Suc (length ds)" by (simp add: ds)
  show ?thesis
  proof (cases "n = 0")
    case True
    with assms(1) show ?thesis
      by (simp add: digits_zero scan_number_def is_digit_def delimited_no_number
            nat_of_digits_def digit_val_def)
  next
    case False
    then have nz: "d \<noteq> CHR ''0''" using hd_digits_zero [of n] by (simp add: ds)
    have v: "nat_of_digits (d # ds) = n" using nat_of_digits_digits [of n] by (simp add: ds)
    note tw = delimited_digits [OF assms(1) all(2)]
    show ?thesis
      using m nz all(1) v tw len delimited_no_number [OF assms(1)]
      by (simp add: ds scan_number_def)
  qed
qed


lemma scan_number_int:
  assumes "delimited rest" and "length (digits (nat \<bar>i\<bar>)) \<le> 640"
  shows "scan_number (str_int i @ rest) = Decoded (JInt i, rest)"
proof (cases "i < 0")
  case False
  then have "nat \<bar>i\<bar> = nat i" by simp
  with scan_number_nat [OF assms(1), of "nat i"] assms(2) False show ?thesis
    by (simp add: str_int_def)
next
  case True
  let ?n = "nat (- i)"
  from True have abs: "nat \<bar>i\<bar> = ?n" by simp
  obtain d ds where ds: "digits ?n = d # ds"
    using digits_not_Nil [of ?n] by (cases "digits ?n") auto
  have all: "is_digit d" "\<forall>c\<in>set ds. is_digit c"
    using digits_all [of ?n] by (simp_all add: ds)
  from assms(2) have len: "\<not> 640 < Suc (length ds)" by (simp add: abs ds)
  from True have "?n \<noteq> 0" by simp
  then have nz: "d \<noteq> CHR ''0''" using hd_digits_zero [of ?n] by (simp add: ds)
  have v: "nat_of_digits (d # ds) = ?n" using nat_of_digits_digits [of ?n] by (simp add: ds)
  note tw = delimited_digits [OF assms(1) all(2)]
  from True have "- int ?n = i" by simp
  then show ?thesis
    using True nz all(1) v tw len delimited_no_number [OF assms(1)]
    by (simp add: str_int_def ds scan_number_def)
qed

lemma is_digit_opens: "is_digit c \<Longrightarrow> opens_value c"
  by (auto simp: is_digit_def opens_value_def is_ws_def)

lemma str_int_Cons: "\<exists>c r. str_int i = c # r \<and> (c = CHR ''-'' \<or> is_digit c)"
proof -
  have d: "\<exists>c r. digits n = c # r \<and> is_digit c" for n
    using digits_not_Nil [of n] digits_all [of n] by (cases "digits n") auto
  show ?thesis
  proof (cases "i < 0")
    case True
    then show ?thesis by (simp add: str_int_def)
  next
    case False
    with d [of "nat i"] show ?thesis by (auto simp: str_int_def)
  qed
qed

lemma dumps_Cons: "\<exists>c r. dumps v = c # r \<and> opens_value c"
proof (cases v)
  case (JInt i)
  from str_int_Cons [of i] obtain c r where "str_int i = c # r" "c = CHR ''-'' \<or> is_digit c"
    by blast
  then show ?thesis
    using is_digit_opens [of c] by (auto simp: JInt opens_value_def is_ws_def)
qed (auto simp: opens_value_def is_ws_def encode_str_def)

lemma skip_ws_dumps: "skip_ws (dumps v @ rest) = dumps v @ rest"
  using dumps_Cons [of v] by (auto simp: skip_ws_def opens_value_def)

lemma length_dumps_pos: "0 < length (dumps v)"
  using dumps_Cons [of v] by auto

lemma parse_value_str:
  "parse_value (Suc n) (encode_str s @ rest) = Decoded (JStr s, rest)"
  by (simp add: encode_str_def scanstring_body)

lemma parse_value_int:
  assumes "delimited rest" and "length (digits (nat \<bar>i\<bar>)) \<le> 640"
  shows "parse_value (Suc n) (str_int i @ rest) = Decoded (JInt i, rest)"
proof -
  from str_int_Cons [of i] obtain c r where c: "str_int i = c # r" "c = CHR ''-'' \<or> is_digit c"
    by blast
  then have "c \<noteq> CHR 0x22" "c \<noteq> CHR ''{''" "c \<noteq> CHR ''[''" "c \<noteq> CHR ''n''"
    "c \<noteq> CHR ''t''" "c \<noteq> CHR ''f''"
    by (auto simp: is_digit_def)
  then show ?thesis
    using scan_number_int [OF assms] by (simp add: c(1))
qed


lemma join_Cons_nonempty: "ys \<noteq> [] \<Longrightarrow> join sep (x # ys) = x @ sep @ join sep ys"
  by (cases ys) simp_all

lemma length_join_Cons: "length x \<le> length (join sep (x # ys))"
  by (cases ys) simp_all

lemma skip_ws_simps [simp]:
  "skip_ws (CHR '' '' # s) = skip_ws s"
  "skip_ws (CHR '','' # s) = CHR '','' # s"
  "skip_ws (CHR '']'' # s) = CHR '']'' # s"
  "skip_ws (CHR ''}'' # s) = CHR ''}'' # s"
  "skip_ws (CHR '':'' # s) = CHR '':'' # s"
  "skip_ws (CHR 0x22 # s) = CHR 0x22 # s"
  "skip_ws [] = []"
  by (simp_all add: skip_ws_def is_ws_def)

lemma delimited_simps [simp]:
  "delimited []" "delimited (CHR '','' # s)" "delimited (CHR '']'' # s)"
  "delimited (CHR ''}'' # s)"
  by (simp_all add: delimited_def)

lemma join_dumps_Cons:
  "xs \<noteq> [] \<Longrightarrow> \<exists>c r. join sep (map dumps xs) = c # r \<and> opens_value c"
proof (cases xs)
  case (Cons x ys)
  from dumps_Cons [of x] obtain c r where "dumps x = c # r" "opens_value c" by blast
  then show ?thesis by (cases ys) (auto simp: Cons)
qed simp

lemma skip_ws_join_dumps:
  "xs \<noteq> [] \<Longrightarrow> skip_ws (join sep (map dumps xs) @ rest) = join sep (map dumps xs) @ rest"
  using join_dumps_Cons [of xs sep] by (auto simp: skip_ws_def opens_value_def)

lemma parse_items_ok:
  assumes "xs \<noteq> []"
    and "\<And>x n rest. x \<in> set xs \<Longrightarrow> length (dumps x) \<le> n \<Longrightarrow> delimited rest \<Longrightarrow>
           parse_value n (dumps x @ rest) = Decoded (x, rest)"
    and "length (join '', '' (map dumps xs)) < n"
  shows "parse_items n acc (join '', '' (map dumps xs) @ CHR '']'' # rest) = Decoded (acc @ xs, rest)"
  using assms
proof (induction xs arbitrary: n acc rule: list_nonempty_induct)
  case (single x)
  from single(2) obtain m where n: "n = Suc m" and m: "length (dumps x) \<le> m"
    by (cases n) auto
  have "parse_value m (dumps x @ CHR '']'' # rest) = Decoded (x, CHR '']'' # rest)"
    by (rule single(1)) (simp_all add: m)
  then show ?case by (simp add: n)
next
  case (cons x xs)
  let ?tail = "join '', '' (map dumps xs)"
  have j: "join '', '' (map dumps (x # xs)) = dumps x @ '', '' @ ?tail"
    using cons(1) by (simp add: join_Cons_nonempty)
  from cons(4) have "length (dumps x) + 2 + length ?tail < n"
    unfolding j by simp
  then obtain m where n: "n = Suc m"
    and m: "length (dumps x) \<le> m" "length ?tail < m"
    by (cases n) auto
  have v: "parse_value m (dumps x @ CHR '','' # CHR '' '' # ?tail @ CHR '']'' # rest) =
           Decoded (x, CHR '','' # CHR '' '' # ?tail @ CHR '']'' # rest)"
    by (rule cons(3)) (simp_all add: m)
  have t: "parse_items m (acc @ [x]) (?tail @ CHR '']'' # rest) = Decoded ((acc @ [x]) @ xs, rest)"
    by (rule cons(2)) (simp_all add: cons(3) m)
  show ?case
    unfolding j n using v t by (simp add: skip_ws_join_dumps [OF cons(1)])
qed

lemma member_text_Cons:
  "member_text kv =
     CHR 0x22 # concat (map escape_char (fst kv)) @ CHR 0x22 # CHR '':'' # CHR '' '' # dumps (snd kv)"
  by (simp add: member_text_def encode_str_def)

lemma parse_members_ok:
  assumes "kvs \<noteq> []"
    and "\<And>kv n rest. kv \<in> set kvs \<Longrightarrow> length (dumps (snd kv)) \<le> n \<Longrightarrow> delimited rest \<Longrightarrow>
           parse_value n (dumps (snd kv) @ rest) = Decoded (snd kv, rest)"
    and "length (join '', '' (map member_text kvs)) < n"
  shows "\<exists>r. join '', '' (map member_text kvs) = CHR 0x22 # r \<and>
             parse_members n acc (r @ CHR ''}'' # rest) = Decoded (acc @ kvs, rest)"
  using assms
proof (induction kvs arbitrary: n acc rule: list_nonempty_induct)
  case (single kv)
  let ?k = "fst kv" and ?v = "snd kv"
  from single(2) obtain m where n: "n = Suc m" and m: "length (dumps ?v) \<le> m"
    by (cases n) (auto simp: member_text_Cons)
  have v: "parse_value m (dumps ?v @ CHR ''}'' # rest) = Decoded (?v, CHR ''}'' # rest)"
    by (rule single(1)) (simp_all add: m)
  show ?case
    using v by (simp add: n member_text_Cons scanstring_body skip_ws_dumps)
next
  case (cons kv kvs)
  let ?k = "fst kv" and ?v = "snd kv"
  let ?tail = "join '', '' (map member_text kvs)"
  have j: "join '', '' (map member_text (kv # kvs)) = member_text kv @ '', '' @ ?tail"
    using cons(1) by (simp add: join_Cons_nonempty)
  from cons(4) have "length (member_text kv) + 2 + length ?tail < n"
    unfolding j by simp
  then obtain m where n: "n = Suc m"
    and m: "length (dumps ?v) \<le> m" "length ?tail < m"
    by (cases n) (auto simp: member_text_Cons)
  have "\<exists>r. ?tail = CHR 0x22 # r \<and>
          parse_members m (acc @ [kv]) (r @ CHR ''}'' # rest) = Decoded ((acc @ [kv]) @ kvs, rest)"
    by (rule cons(2)) (simp_all add: cons(3) m)
  then obtain r where r: "?tail = CHR 0x22 # r"
    and t: "parse_members m (acc @ [kv]) (r @ CHR ''}'' # rest) = Decoded ((acc @ [kv]) @ kvs, rest)"
    by blast
  have v: "parse_value m (dumps ?v @ CHR '','' # CHR '' '' # ?tail @ CHR ''}'' # rest) =
           Decoded (?v, CHR '','' # CHR '' '' # ?tail @ CHR ''}'' # rest)"
    by (rule cons(3)) (simp_all add: m)
  show ?case
    unfolding j n r using v [unfolded r] t
    by (simp add: member_text_Cons scanstring_body skip_ws_dumps)
qed

lemma dict_set_fresh: "k \<notin> fst ` set d \<Longrightarrow> dict_set k v d = d @ [(k, v)]"
  by (induction d) auto

lemma foldl_dict_set:
  "distinct (map fst (d @ kvs)) \<Longrightarrow>
   foldl (\<lambda>d kv. dict_set (fst kv) (snd kv) d) d kvs = d @ kvs"
proof (induction kvs arbitrary: d)
  case Nil
  show ?case by simp
next
  case (Cons kv kvs)
  from Cons.prems have "fst kv \<notin> fst ` set d" by auto
  then have "dict_set (fst kv) (snd kv) d = d @ [kv]" by (simp add: dict_set_fresh)
  moreover from Cons.prems have "distinct (map fst ((d @ [kv]) @ kvs))" by simp
  ultimately show ?case using Cons.IH [of "d @ [kv]"] by simp
qed

lemma dict_of_pairs_distinct: "distinct (map fst kvs) \<Longrightarrow> dict_of_pairs kvs = kvs"
  using foldl_dict_set [of "[]" kvs] by (simp add: dict_of_pairs_def)


lemma dumps_JObj: "dumps (JObj kvs) = CHR ''{'' # join '', '' (map member_text kvs) @ ''}''"
proof -
  have "(\<lambda>kv. encode_str (fst kv) @ '': '' @ dumps (snd kv)) = member_text"
    by (rule ext) (simp add: member_text_def)
  then show ?thesis by simp
qed

lemma parse_value_roundtrip:
  "wf_json v \<Longrightarrow> length (dumps v) \<le> n \<Longrightarrow> delimited rest \<Longrightarrow>
   parse_value n (dumps v @ rest) = Decoded (v, rest)"
proof (induction v arbitrary: n rest)
  case JNull
  then obtain m where "n = Suc m" by (cases n) auto
  then show ?case by simp
next
  case (JBool b)
  then obtain m where "n = Suc m" by (cases n; cases b) auto
  then show ?case by simp
next
  case (JInt i)
  from JInt(2) length_dumps_pos [of "JInt i"] obtain m where "n = Suc m" by (cases n) auto
  moreover from JInt(1) have "length (digits (nat \<bar>i\<bar>)) \<le> 640" by simp
  ultimately show ?case using parse_value_int [OF JInt(3)] by simp
next
  case (JStr s)
  from JStr(2) length_dumps_pos [of "JStr s"] obtain m where "n = Suc m" by (cases n) auto
  then show ?case using parse_value_str by simp
next
  case (JList xs)
  let ?body = "join '', '' (map dumps xs)"
  from JList(3) obtain m where n: "n = Suc m" and m: "length ?body < m"
    by (cases n) auto
  show ?case
  proof (cases "xs = []")
    case True
    then show ?thesis by (simp add: n)
  next
    case False
    have items: "parse_items m [] (?body @ CHR '']'' # rest) = Decoded ([] @ xs, rest)"
    proof (rule parse_items_ok [OF False _ m])
      fix x n' rest'
      assume "x \<in> set xs" "length (dumps x) \<le> n'" "delimited rest'"
      with JList(1) [of x n' rest'] JList(2)
      show "parse_value n' (dumps x @ rest') = Decoded (x, rest')"
        by (simp add: list_all_iff)
    qed
    from join_dumps_Cons [OF False, of "'', ''"] obtain c r
      where c: "?body = c # r" "opens_value c" by blast
    then have sk: "skip_ws (c # r @ CHR '']'' # rest) = c # r @ CHR '']'' # rest"
      by (simp add: skip_ws_def opens_value_def)
    from c(2) have "c \<noteq> CHR '']''" by (simp add: opens_value_def)
    with items show ?thesis
      by (simp add: n sk c(1))
  qed
next
  case (JObj kvs)
  let ?body = "join '', '' (map member_text kvs)"
  from JObj(3) have "length (CHR ''{'' # ?body @ ''}'') \<le> n"
    by (simp only: dumps_JObj)
  then obtain m where n: "n = Suc m" and m: "length ?body < m"
    by (cases n) auto
  from JObj(2) have d: "distinct (map fst kvs)" by simp
  show ?case
  proof (cases "kvs = []")
    case True
    then show ?thesis by (simp add: n)
  next
    case False
    have "\<exists>r. ?body = CHR 0x22 # r \<and>
            parse_members m [] (r @ CHR ''}'' # rest) = Decoded ([] @ kvs, rest)"
    proof (rule parse_members_ok [OF False _ m])
      fix kv n' rest'
      assume "kv \<in> set kvs" "length (dumps (snd kv)) \<le> n'" "delimited rest'"
      with JObj(1) [of kv "snd kv" n' rest'] JObj(2)
      show "parse_value n' (dumps (snd kv) @ rest') = Decoded (snd kv, rest')"
        by (cases kv) (auto simp: list_all_iff)
    qed
    then obtain r where r: "?body = CHR 0x22 # r"
      and t: "parse_members m [] (r @ CHR ''}'' # rest) = Decoded (kvs, rest)"
      by auto
    show ?thesis
      unfolding dumps_JObj r n using t
      by (simp add: dict_of_pairs_distinct [OF d])
  qed
qed

lemma loads_dumps: "wf_json v \<Longrightarrow> loads (dumps v) = Decoded v"
  using parse_value_roundtrip [of v "Suc (length (dumps v))" "[]"] skip_ws_dumps [of v "[]"]
  by (simp add: loads_def)

section \<open>Facts about one batch of tool-requests\<close>

lemma exec_tool_eq:
  "exec_tool ser reg tu lg rs w =
     (lg @ [entry_of ser tu (fst (dispatch_tool reg (tu_name tu) (tu_input tu) w))],
      rs @ [result_of ser tu (fst (dispatch_tool reg (tu_name tu) (tu_input tu) w))],
      snd (dispatch_tool reg (tu_name tu) (tu_input tu) w))"
  by (cases "dispatch_tool reg (tu_name tu) (tu_input tu) w")
     (auto simp: exec_tool_def entry_of_def result_of_def serialize_outcome_def error_payload_def
        split: sum.splits)

lemma exec_tools_eq:
  "exec_tools ser reg tus lg rs w =
     (lg @ map2 (entry_of ser) tus (outcomes reg tus w),
      rs @ map2 (result_of ser) tus (outcomes reg tus w),
      world_after reg tus w)"
proof (induction tus arbitrary: lg rs w)
  case Nil
  show ?case by simp
next
  case (Cons tu tus)
  show ?case
    by (cases "dispatch_tool reg (tu_name tu) (tu_input tu) w")
       (simp add: exec_tool_eq Cons.IH)
qed

lemma length_outcomes [simp]: "length (outcomes reg tus w) = length tus"
  by (induction tus arbitrary: w) (auto split: prod.splits)

lemma outcomes_append:
  "outcomes reg (pre @ post) w = outcomes reg pre w @ outcomes reg post (world_after reg pre w)"
  by (induction pre arbitrary: w) (auto split: prod.splits)

lemma world_after_append:
  "world_after reg (pre @ post) w = world_after reg post (world_after reg pre w)"
  by (induction pre arbitrary: w) auto

lemma map_results_ids:
  "length os = length tus \<Longrightarrow> map tool_use_id (map2 (result_of ser) tus os) = map tu_id tus"
  by (induction tus os rule: list_induct2') (auto simp: result_of_def)

lemma map_entries:
  assumes "length os = length tus"
  shows "map log_tool (map2 (entry_of ser) tus os) = map tu_name tus"
    and "map log_input (map2 (entry_of ser) tus os) = map tu_input tus"
    and "map log_output (map2 (entry_of ser) tus os) = map tr_content (map2 (result_of ser) tus os)"
    and "map log_error (map2 (entry_of ser) tus os) = map is_error (map2 (result_of ser) tus os)"
  using assms
  by (induction tus os rule: list_induct2'; simp add: entry_of_def result_of_def)+

section \<open>Facts about the loop\<close>

lemma agent_loop_unfold:
  "agent_loop ser reg create ms lg w =
     (case create ms of
        Inl exc \<Rightarrow> Some (Inl exc, ms, w)
      | Inr resp \<Rightarrow>
          if final resp then Some (Inr (result_at resp lg), ms, w)
          else (case loop_step ser reg resp ms lg w of
                  (ms', lg', w') \<Rightarrow> agent_loop ser reg create ms' lg' w'))"
  by (subst agent_loop.simps)
     (simp add: Let_def final_def result_at_def loop_step_def exec_tools_eq split: sum.splits)

lemma agent_loop_fail:
  "create ms = Inl exc \<Longrightarrow> agent_loop ser reg create ms lg w = Some (Inl exc, ms, w)"
  by (subst agent_loop_unfold) simp

lemma agent_loop_final:
  "create ms = Inr resp \<Longrightarrow> final resp \<Longrightarrow>
   agent_loop ser reg create ms lg w = Some (Inr (result_at resp lg), ms, w)"
  by (subst agent_loop_unfold) simp

lemma agent_loop_continue:
  "create ms = Inr resp \<Longrightarrow> \<not> final resp \<Longrightarrow>
   agent_loop ser reg create ms lg w =
     agent_loop ser reg create (fst (loop_step ser reg resp ms lg w))
       (fst (snd (loop_step ser reg resp ms lg w))) (snd (snd (loop_step ser reg resp ms lg w)))"
  by (subst agent_loop_unfold) (simp add: case_prod_beta)

text \<open>
  A rule for every property of a returned run: an invariant of the loop state that each
  pass keeps gives, at either exit, what holds of the value returned.
\<close>

lemma agent_loop_rule:
  fixes ser :: "'v serializer" and reg :: "('v, 'w) registry"
  assumes ret: "agent_loop ser reg create ms lg w = Some y"
    and init: "I ms lg w"
    and step: "\<And>ms lg w resp. I ms lg w \<Longrightarrow> create ms = Inr resp \<Longrightarrow> \<not> final resp \<Longrightarrow>
                 I (fst (loop_step ser reg resp ms lg w)) (fst (snd (loop_step ser reg resp ms lg w)))
                   (snd (snd (loop_step ser reg resp ms lg w)))"
    and fail: "\<And>ms lg w exc. I ms lg w \<Longrightarrow> create ms = Inl exc \<Longrightarrow> Q (Inl exc, ms, w)"
    and exit: "\<And>ms lg w resp. I ms lg w \<Longrightarrow> create ms = Inr resp \<Longrightarrow> final resp \<Longrightarrow>
                 Q (Inr (result_at resp lg), ms, w)"
  shows "Q y"
proof -
  have "ser = ser \<longrightarrow> reg = reg \<longrightarrow> create = create \<longrightarrow> I ms lg w \<longrightarrow> Q y"
  proof (rule agent_loop.raw_induct
      [where P = "\<lambda>ser' reg' create' ms lg w y.
                    ser' = ser \<longrightarrow> reg' = reg \<longrightarrow> create' = create \<longrightarrow> I ms lg w \<longrightarrow> Q y",
       OF _ ret], intro impI)
    fix loop :: "'v serializer \<Rightarrow> ('v, 'w) registry \<Rightarrow> ('v message list \<Rightarrow> exn + 'v response)
      \<Rightarrow> 'v message list \<Rightarrow> 'v log_entry list \<Rightarrow> 'w
      \<Rightarrow> ((exn + 'v run_result) \<times> 'v message list \<times> 'w) option"
    fix ser' reg' create' ms lg w y
    assume IH: "\<And>ser' reg' create' ms lg w y. loop ser' reg' create' ms lg w = Some y \<Longrightarrow>
      ser' = ser \<longrightarrow> reg' = reg \<longrightarrow> create' = create \<longrightarrow> I ms lg w \<longrightarrow> Q y"
    assume eq: "(case create' ms of
        Inl exc \<Rightarrow> Some (Inl exc, ms, w)
      | Inr resp \<Rightarrow>
          (let tool_uses = tool_uses_of (resp_content resp) in
           if stop_reason resp = ''end_turn'' \<or> tool_uses = [] then
             Some (Inr \<lparr>response = join [CHR 0x0A] (text_blocks_of (resp_content resp)),
                        tool_calls = lg\<rparr>, ms, w)
           else
             (case exec_tools ser' reg' tool_uses lg [] w of
                (tool_calls_log', tool_results, w') \<Rightarrow>
                  loop ser' reg' create'
                    (ms @
                       [\<lparr>role = ''assistant'', msg_content = Blocks (resp_content resp)\<rparr>] @
                       [\<lparr>role = ''user'', msg_content = ToolResults tool_results\<rparr>])
                    tool_calls_log' w'))) = Some y"
    assume s: "ser' = ser" and r: "reg' = reg" and c: "create' = create" and i: "I ms lg w"
    show "Q y"
    proof (cases "create ms")
      case (Inl exc)
      with eq c have "y = (Inl exc, ms, w)" by simp
      with fail [OF i Inl] show ?thesis by simp
    next
      case (Inr resp)
      show ?thesis
      proof (cases "final resp")
        case True
        with eq c Inr have "y = (Inr (result_at resp lg), ms, w)"
          by (simp add: final_def result_at_def Let_def)
        with exit [OF i Inr True] show ?thesis by simp
      next
        case False
        with eq c r s Inr
        have "loop ser reg create (fst (loop_step ser reg resp ms lg w))
                (fst (snd (loop_step ser reg resp ms lg w)))
                (snd (snd (loop_step ser reg resp ms lg w))) = Some y"
          by (simp add: final_def Let_def loop_step_def exec_tools_eq)
        from IH [OF this] step [OF i Inr False] show ?thesis by simp
      qed
    qed
  qed
  with init show ?thesis by simp
qed


lemma agent_loop_exit:
  assumes "agent_loop ser reg create ms lg w = Some (out, ms', w')"
  shows "(\<forall>exc. create ms' = Inl exc \<longrightarrow> out = Inl exc) \<and>
         (\<forall>resp. create ms' = Inr resp \<longrightarrow> final resp \<and> (\<exists>lg'. out = Inr (result_at resp lg')))"
proof -
  have "(\<lambda>y. (\<forall>exc. create (fst (snd y)) = Inl exc \<longrightarrow> fst y = Inl exc) \<and>
             (\<forall>resp. create (fst (snd y)) = Inr resp \<longrightarrow>
                final resp \<and> (\<exists>lg'. fst y = Inr (result_at resp lg')))) (out, ms', w')"
    by (rule agent_loop_rule [where I = "\<lambda>ms lg w. True", OF assms]) auto
  then show ?thesis by simp
qed

section \<open>The scenario, evaluated\<close>

lemmas demo_defs = req_prefs_def req_search_def req_unknown_def missing_key_def
  demo_registry_def three_requests_def closing_def demo_log_def demo_results_def
  demo_transcript_def json_ser_def

lemma demo_exec:
  "exec_tools json_ser demo_registry (tool_uses_of (resp_content three_requests)) [] [] () =
     (demo_log, demo_results, ())"
  by (simp add: demo_defs exec_tool_def dispatch_tool_def stub_tool_def del: dumps.simps)

lemma demo_tool_uses:
  "tool_uses_of (resp_content three_requests) = [req_prefs, req_search, req_unknown]"
  by (simp add: three_requests_def)

lemma demo_not_final: "\<not> final three_requests"
  by (simp add: final_def three_requests_def)

lemma demo_loop_step:
  "loop_step json_ser demo_registry three_requests (seed ''u1'' ''Find me ramen'' ''San Francisco, CA'') [] () =
     (demo_transcript, demo_log, ())"
  using demo_exec
  by (simp add: exec_tools_eq loop_step_def Let_def demo_transcript_def)

lemma demo_script_0:
  "scripted (Inr three_requests # rest) (seed ''u1'' ''Find me ramen'' ''San Francisco, CA'') =
     Inr three_requests"
  by (simp add: scripted_def seed_def)

lemma demo_run:
  "run json_ser demo_registry (scripted (Inr three_requests # rest))
     ''u1'' ''Find me ramen'' ''San Francisco, CA'' () =
   agent_loop json_ser demo_registry (scripted (Inr three_requests # rest)) demo_transcript demo_log ()"
  unfolding run_def
  by (subst agent_loop_continue
        [where create = "scripted (Inr three_requests # rest)"
           and ms = "seed ''u1'' ''Find me ramen'' ''San Francisco, CA''",
         OF demo_script_0 demo_not_final])
     (simp add: demo_loop_step)

lemma demo_script_1: "scripted [x, y] demo_transcript = y"
  by (simp add: scripted_def demo_transcript_def seed_def)

section \<open>Facts about transcripts and positions in a batch\<close>

lemma requests_of_append [simp]: "requests_of (ms @ ms') = requests_of ms @ requests_of ms'"
  by (induction ms) auto

lemma results_of_append [simp]: "results_of (ms @ ms') = results_of ms @ results_of ms'"
  by (induction ms) auto

lemma paired_append:
  "paired ms \<Longrightarrow> map tool_use_id rs = map tu_id (tool_uses_of bs) \<Longrightarrow>
   paired (ms @ [\<lparr>role = r, msg_content = Blocks bs\<rparr>,
                 \<lparr>role = r', msg_content = ToolResults rs\<rparr>])"
  by (induction ms rule: paired.induct) (auto split: msg_content.splits)

lemma nth_batch_outcome:
  "outcomes reg (pre @ tu # post) w ! length pre =
     fst (dispatch_tool reg (tu_name tu) (tu_input tu) (world_after reg pre w))"
  by (auto simp: outcomes_append nth_append split: prod.splits)

lemma nth_batch_result:
  "map2 (result_of ser) (pre @ tu # post) (outcomes reg (pre @ tu # post) w) ! length pre =
     result_of ser tu (fst (dispatch_tool reg (tu_name tu) (tu_input tu) (world_after reg pre w)))"
  using nth_batch_outcome [of reg pre tu post w]
  by (simp add: nth_append)

lemma nth_batch_entry:
  "map2 (entry_of ser) (pre @ tu # post) (outcomes reg (pre @ tu # post) w) ! length pre =
     entry_of ser tu (fst (dispatch_tool reg (tu_name tu) (tu_input tu) (world_after reg pre w)))"
  using nth_batch_outcome [of reg pre tu post w]
  by (simp add: nth_append)

lemma dispatch_unknown:
  "reg name = None \<Longrightarrow>
   dispatch_tool reg name inputs w = (Inl (Exn ''ValueError'' (''Unknown tool: '' @ name)), w)"
  by (simp add: dispatch_tool_def)

lemma agent_loop_keeps_pairing:
  fixes ser :: "'v serializer" and reg :: "('v, 'w) registry"
  assumes ret: "agent_loop ser reg create ms lg w = Some (out, ms', w')"
    and init: "paired ms" "log_matches ms lg"
  shows "paired ms' \<and> (\<forall>r. out = Inr r \<longrightarrow> log_matches ms' (tool_calls r))"
proof -
  have "paired (fst (snd (out, ms', w'))) \<and>
        (\<forall>r. fst (out, ms', w') = Inr r \<longrightarrow> log_matches (fst (snd (out, ms', w'))) (tool_calls r))"
  proof (rule agent_loop_rule
        [where I = "\<lambda>ms lg w. paired ms \<and> log_matches ms lg"
           and Q = "\<lambda>y. paired (fst (snd y)) \<and>
                      (\<forall>r. fst y = Inr r \<longrightarrow> log_matches (fst (snd y)) (tool_calls r))",
         OF ret])
    from init show "paired ms \<and> log_matches ms lg" by simp
  next
    fix ms :: "'v message list" and lg :: "'v log_entry list" and w :: 'w
      and resp :: "'v response"
    assume i: "paired ms \<and> log_matches ms lg"
    let ?tus = "tool_uses_of (resp_content resp)"
    have len: "length (outcomes reg ?tus w) = length ?tus" by simp
    have p: "paired (fst (loop_step ser reg resp ms lg w))"
      using paired_append [OF conjunct1 [OF i] map_results_ids [OF len]]
      by (simp add: loop_step_def Let_def)
    have l: "log_matches (fst (loop_step ser reg resp ms lg w))
               (fst (snd (loop_step ser reg resp ms lg w)))"
      using conjunct2 [OF i] map_entries [OF len]
      by (simp add: loop_step_def Let_def log_matches_def)
    from p l show "paired (fst (loop_step ser reg resp ms lg w)) \<and>
      log_matches (fst (loop_step ser reg resp ms lg w)) (fst (snd (loop_step ser reg resp ms lg w)))"
      by simp
  qed (simp_all add: result_at_def)
  then show ?thesis by simp
qed

lemma serialize_outcome_attempt:
  "snd (serialize_outcome ser outcome) = isl (attempt ser outcome)"
  "fst (serialize_outcome ser outcome) =
     (case attempt ser outcome of Inr encoded \<Rightarrow> encoded | Inl exc \<Rightarrow> dumps (error_payload exc))"
  by (simp_all add: serialize_outcome_def split: sum.splits)

lemma serialize_outcome_raised [simp]:
  "serialize_outcome ser (Inl exc) = (dumps (error_payload exc), True)"
  by (simp add: serialize_outcome_def)







lemma demo_run_closing:
  "run json_ser demo_registry (scripted [Inr three_requests, Inr closing])
     ''u1'' ''Find me ramen'' ''San Francisco, CA'' () =
   Some (Inr \<lparr>response = ''Search is unavailable.'', tool_calls = demo_log\<rparr>,
         demo_transcript, ())"
proof -
  have "final closing" by (simp add: final_def closing_def)
  from agent_loop_final
    [where create = "scripted [Inr three_requests, Inr closing]" and ms = demo_transcript,
     OF demo_script_1 this]
  show ?thesis by (simp add: demo_run result_at_def closing_def)
qed

lemma demo_run_failing:
  "run json_ser demo_registry (scripted [Inr three_requests, Inl exc])
     ''u1'' ''Find me ramen'' ''San Francisco, CA'' () =
   Some (Inl exc, demo_transcript, ())"
  by (simp add: demo_run agent_loop_fail [where create = "scripted [Inr three_requests, Inl exc]"]
        demo_script_1)

lemma demo_paired: "paired demo_transcript"
  by (simp add: demo_defs seed_def del: dumps.simps)

lemma demo_log_matches: "log_matches demo_transcript demo_log"
  by (simp add: demo_defs seed_def log_matches_def del: dumps.simps)






section \<open>Facts about the preference store and the search\<close>

lemma find_append_None: "find P xs = None \<Longrightarrow> find P (xs @ ys) = find P ys"
  by (induction xs) (auto split: if_splits)

lemma find_update_first:
  "find (\<lambda>q. pref_user_id q = uid) xs = Some p \<Longrightarrow> pref_user_id p' = uid \<Longrightarrow>
   find (\<lambda>q. pref_user_id q = uid) (update_first uid p' xs) = Some p'"
  by (induction xs) (auto split: if_splits)

lemma find_user_id:
  "find (\<lambda>q. pref_user_id q = uid) xs = Some p \<Longrightarrow> pref_user_id p = uid"
  by (induction xs) (auto split: if_splits)

text \<open>The row of the user after the upsert.\<close>

lemma first_pref_save:
  "first_pref uid (snd (save_preference U uid cl cd dr pr lp dp db)) =
     Some (let p0 = (case first_pref uid db of None \<Rightarrow> insert_defaults (new_pref uid) | Some p \<Rightarrow> p) in
       p0\<lparr>cuisines_liked := (case cl of None \<Rightarrow> cuisines_liked p0
                               | Some new \<Rightarrow> Some (U (or_empty (cuisines_liked p0)) new)),
          cuisines_disliked := (case cd of None \<Rightarrow> cuisines_disliked p0
                               | Some new \<Rightarrow> Some (U (or_empty (cuisines_disliked p0)) new)),
          dietary_restrictions := (case dr of None \<Rightarrow> dietary_restrictions p0
                               | Some new \<Rightarrow> Some (U (or_empty (dietary_restrictions p0)) new)),
          price_range := (case pr of None \<Rightarrow> price_range p0 | Some new \<Rightarrow> Some new),
          liked_place_ids := (case lp of None \<Rightarrow> liked_place_ids p0
                               | Some new \<Rightarrow> Some (U (or_empty (liked_place_ids p0)) new)),
          disliked_place_ids := (case dp of None \<Rightarrow> disliked_place_ids p0
                               | Some new \<Rightarrow> Some (U (or_empty (disliked_place_ids p0)) new))\<rparr>)"
proof (cases "first_pref uid db")
  case None
  then show ?thesis
    by (cases cl; cases cd; cases dr; cases pr; cases lp; cases dp)
       (simp_all add: save_preference_def first_pref_def find_append_None new_pref_def
          insert_defaults_def or_empty_def)
next
  case (Some p)
  then have u: "pref_user_id p = uid" by (auto simp: first_pref_def dest: find_user_id)
  from Some show ?thesis
    by (cases cl; cases cd; cases dr; cases pr; cases lp; cases dp)
       (simp_all add: save_preference_def first_pref_def find_update_first u)
qed



text \<open>\<open>get_preferences\<close> reports exactly the stored lists and the stored price.\<close>

lemma get_preferences_stored:
  "get_preferences uid db =
     JObj [(''user_id'', JStr uid),
           (''cuisines_liked'', JList (map JStr (stored_list cuisines_liked uid db))),
           (''cuisines_disliked'', JList (map JStr (stored_list cuisines_disliked uid db))),
           (''dietary_restrictions'',
              JList (map JStr (stored_list dietary_restrictions uid db))),
           (''price_range'', (case stored_price uid db of None \<Rightarrow> JNull | Some v \<Rightarrow> JStr v)),
           (''liked_place_ids'', JList (map JStr (stored_list liked_place_ids uid db))),
           (''disliked_place_ids'', JList (map JStr (stored_list disliked_place_ids uid db)))]"
  by (simp add: get_preferences_def stored_list_def stored_price_def split: option.splits)

lemma union_in_order_enumerates: "enumerates_union union_in_order"
  by (simp add: enumerates_union_def union_in_order_def)

lemma thai_store_eq:
  "thai_store =
     \<lparr>users = [''user3''],
      preferences = [\<lparr>pref_user_id = ''user3'', cuisines_liked = Some [''Thai''],
                      cuisines_disliked = Some [], dietary_restrictions = Some [],
                      price_range = Some ''$$$'', liked_place_ids = Some [],
                      disliked_place_ids = Some []\<rparr>]\<rparr>"
  by (simp add: thai_store_def empty_store_def save_preference_def first_pref_def Let_def
        new_pref_def insert_defaults_def or_empty_def union_in_order_def)


lemma thai_views:
  "stored_list cuisines_liked ''user3'' thai_store = [''Thai'']"
  "stored_list dietary_restrictions ''user3'' thai_store = []"
  "stored_price ''user3'' thai_store = Some ''$$$''"
  by (simp_all add: thai_store_eq stored_list_def stored_price_def first_pref_def or_empty_def)

lemma collect_places_length:
  "collect_places ps acc = Inr found \<Longrightarrow> length found = length acc + length ps"
  by (induction ps arbitrary: acc) (auto split: sum.splits)

lemma ramen_record_eq: "place_record ramen_house = Inr ramen_record"
  by (simp add: place_record_def ramen_house_def ramen_record_def dict_get_def)

lemma collect_replicate:
  "place_record p = Inr r \<Longrightarrow> collect_places (replicate n p) acc = Inr (acc @ replicate n r)"
  by (induction n arbitrary: acc) (simp_all add: replicate_app_Cons_same)

section \<open>The claims about the loop\<close>

text \<open>
  C8. When the model's response to the seeded transcript contains no tool-request block,
  the run returns a Run Result whose tool-call log is empty and whose response text is the
  text blocks of that response, in their order, joined by newlines. The transcript and
  the world of the tools are as they were.
\<close>

theorem no_tool_round_trip:
  assumes "create (seed user_id message location) = Inr resp"
      and "tool_uses_of (resp_content resp) = []"
  shows "run ser reg create user_id message location w =
           Some (Inr \<lparr>response = join [CHR 0x0A] (text_blocks_of (resp_content resp)),
                      tool_calls = []\<rparr>,
                 seed user_id message location, w)"
  using assms by (simp add: run_def agent_loop_final final_def result_at_def)

theorem no_tool_round_trip_witness:
  "scripted [Inr \<lparr>stop_reason = ''max_tokens'',
                  resp_content = [Text ''Here are 3 great ramen spots'', Other ''thinking'',
                                  Text ''in San Francisco!'']\<rparr>]
     (seed ''u1'' ''Find me ramen'' ''San Francisco, CA'') =
     Inr \<lparr>stop_reason = ''max_tokens'',
          resp_content = [Text ''Here are 3 great ramen spots'', Other ''thinking'',
                          Text ''in San Francisco!'']\<rparr> \<and>
   tool_uses_of [Text ''Here are 3 great ramen spots'', Other ''thinking'',
                 Text ''in San Francisco!''] = [] \<and>
   run json_ser Map.empty
     (scripted [Inr \<lparr>stop_reason = ''max_tokens'',
                  resp_content = [Text ''Here are 3 great ramen spots'', Other ''thinking'',
                                  Text ''in San Francisco!'']\<rparr>])
     ''u1'' ''Find me ramen'' ''San Francisco, CA'' () =
     Some (Inr \<lparr>response = ''Here are 3 great ramen spots'' @ [CHR 0x0A] @ ''in San Francisco!'',
                tool_calls = []\<rparr>,
           seed ''u1'' ''Find me ramen'' ''San Francisco, CA'', ())"
  using no_tool_round_trip
    [where create = "scripted [Inr \<lparr>stop_reason = ''max_tokens'',
                  resp_content = [Text ''Here are 3 great ramen spots'', Other ''thinking'',
                                  Text ''in San Francisco!'']\<rparr>]"
       and user_id = "''u1''" and message = "''Find me ramen''"
       and location = "''San Francisco, CA''"
       and resp = "\<lparr>stop_reason = ''max_tokens'',
          resp_content = [Text ''Here are 3 great ramen spots'', Other ''thinking'',
                          Text ''in San Francisco!'']\<rparr>"
       and ser = json_ser and reg = Map.empty and w = "()"]
  by (simp add: scripted_def seed_def)

text \<open>
  C7. A failure of the inference call is fatal for the invocation. At any pass, whatever
  log has been accumulated, a raising inference call makes the loop return that exception
  and no Run Result; a run whose last inference call raised returns the exception, and the
  HTTP layer answers with status 500 carrying only the message of the exception: neither a
  partial answer nor the tool-call log reaches the caller.
\<close>

theorem inference_failure_is_fatal:
  "(create ms = Inl exc \<longrightarrow> agent_loop ser reg create ms lg w = Some (Inl exc, ms, w)) \<and>
   (run ser reg create user_id message location w = Some (out, ms', w') \<longrightarrow> create ms' = Inl exc \<longrightarrow>
      out = Inl exc \<and>
      server_run ser reg create
        \<lparr>req_user_id = user_id, req_message = message, req_location = location\<rparr> w =
        Some (Inl (HTTPException 500 (exn_str exc)), w'))"
proof -
  have a: "agent_loop ser reg create ms lg w = Some (Inl exc, ms, w)" if "create ms = Inl exc"
    using that by (rule agent_loop_fail)
  have b: "out = Inl exc"
    if "run ser reg create user_id message location w = Some (out, ms', w')" "create ms' = Inl exc"
    using agent_loop_exit [OF that(1) [unfolded run_def]] that(2) by simp
  have c: "server_run ser reg create
        \<lparr>req_user_id = user_id, req_message = message, req_location = location\<rparr> w =
        Some (Inl (HTTPException 500 (exn_str exc)), w')"
    if "run ser reg create user_id message location w = Some (out, ms', w')" "create ms' = Inl exc"
    using that b [OF that] by (simp add: server_run_def)
  from a b c show ?thesis by blast
qed


theorem inference_failure_is_fatal_witness:
  "scripted [Inr three_requests, Inl (Exn ''APIConnectionError'' ''Connection error.'')]
     demo_transcript = Inl (Exn ''APIConnectionError'' ''Connection error.'') \<and>
   agent_loop json_ser demo_registry
     (scripted [Inr three_requests, Inl (Exn ''APIConnectionError'' ''Connection error.'')])
     demo_transcript demo_log () =
     Some (Inl (Exn ''APIConnectionError'' ''Connection error.''), demo_transcript, ()) \<and>
   run json_ser demo_registry
     (scripted [Inr three_requests, Inl (Exn ''APIConnectionError'' ''Connection error.'')])
     ''u1'' ''Find me ramen'' ''San Francisco, CA'' () =
     Some (Inl (Exn ''APIConnectionError'' ''Connection error.''), demo_transcript, ()) \<and>
   server_run json_ser demo_registry
     (scripted [Inr three_requests, Inl (Exn ''APIConnectionError'' ''Connection error.'')])
     \<lparr>req_user_id = ''u1'', req_message = ''Find me ramen'',
      req_location = ''San Francisco, CA''\<rparr> () =
     Some (Inl (HTTPException 500 ''Connection error.''), ())"
proof -
  let ?exc = "Exn ''APIConnectionError'' ''Connection error.''"
  let ?create = "scripted [Inr three_requests, Inl ?exc]"
  have f: "?create demo_transcript = Inl ?exc" by (rule demo_script_1)
  note inst = inference_failure_is_fatal
    [where create = ?create and ms = demo_transcript and exc = ?exc and ser = json_ser
       and reg = demo_registry and lg = demo_log and w = "()" and user_id = "''u1''"
       and message = "''Find me ramen''" and location = "''San Francisco, CA''"
       and out = "Inl ?exc" and ms' = demo_transcript and w' = "()"]
  from inst f have l: "agent_loop json_ser demo_registry ?create demo_transcript demo_log () =
      Some (Inl ?exc, demo_transcript, ())" by blast
  then have r: "run json_ser demo_registry ?create ''u1'' ''Find me ramen'' ''San Francisco, CA'' () =
      Some (Inl ?exc, demo_transcript, ())"
    by (simp add: demo_run)
  from inst r f have "server_run json_ser demo_registry ?create
     \<lparr>req_user_id = ''u1'', req_message = ''Find me ramen'',
      req_location = ''San Francisco, CA''\<rparr> () =
     Some (Inl (HTTPException 500 (exn_str ?exc)), ())" by blast
  with f l r show ?thesis by simp
qed

text \<open>
  C1, as the code has it. The loop returns a Run Result exactly at a response that signals
  the end of the turn or that contains no tool-request block (either one suffices): the last
  inference call of a returning run gave such a response, the response text is its text
  blocks joined by newlines, and at such a response the loop returns at once with the log
  accumulated so far. At a response that does not signal the end of the turn
  and contains tool-request blocks, every tool-request is dispatched, in order, each
  producing its tool-result under its own identifier, and only then is the next inference
  call made, on the transcript extended by the response and by that batch.
\<close>

theorem exit_test_and_execution:
  "(agent_loop ser reg create ms lg w = Some (Inr r, ms', w') \<longrightarrow>
      (\<exists>resp. create ms' = Inr resp \<and>
         (stop_reason resp = ''end_turn'' \<or> tool_uses_of (resp_content resp) = []) \<and>
         response r = join [CHR 0x0A] (text_blocks_of (resp_content resp)))) \<and>
   (create ms = Inr resp \<longrightarrow> stop_reason resp \<noteq> ''end_turn'' \<longrightarrow>
    tool_uses_of (resp_content resp) \<noteq> [] \<longrightarrow>
      (\<exists>lg' rs w'.
         exec_tools ser reg (tool_uses_of (resp_content resp)) lg [] w = (lg', rs, w') \<and>
         map tool_use_id rs = map tu_id (tool_uses_of (resp_content resp)) \<and>
         rs = map2 (result_of ser) (tool_uses_of (resp_content resp))
                (outcomes reg (tool_uses_of (resp_content resp)) w) \<and>
         length (outcomes reg (tool_uses_of (resp_content resp)) w) =
           length (tool_uses_of (resp_content resp)) \<and>
         agent_loop ser reg create ms lg w =
           agent_loop ser reg create
             (ms @ [\<lparr>role = ''assistant'', msg_content = Blocks (resp_content resp)\<rparr>,
                    \<lparr>role = ''user'', msg_content = ToolResults rs\<rparr>])
             lg' w')) \<and>
   (create ms = Inr resp \<longrightarrow>
    (stop_reason resp = ''end_turn'' \<or> tool_uses_of (resp_content resp) = []) \<longrightarrow>
      agent_loop ser reg create ms lg w =
        Some (Inr \<lparr>response = join [CHR 0x0A] (text_blocks_of (resp_content resp)),
                   tool_calls = lg\<rparr>, ms, w))"
proof -
  have a: "\<exists>resp. create ms' = Inr resp \<and>
         (stop_reason resp = ''end_turn'' \<or> tool_uses_of (resp_content resp) = []) \<and>
         response r = join [CHR 0x0A] (text_blocks_of (resp_content resp))"
    if ret: "agent_loop ser reg create ms lg w = Some (Inr r, ms', w')"
  proof (cases "create ms'")
    case (Inl exc)
    with agent_loop_exit [OF ret] show ?thesis by simp
  next
    case (Inr resp)
    with agent_loop_exit [OF ret] show ?thesis
      by (auto simp: final_def result_at_def)
  qed
  have b: "\<exists>lg' rs w'.
         exec_tools ser reg (tool_uses_of (resp_content resp)) lg [] w = (lg', rs, w') \<and>
         map tool_use_id rs = map tu_id (tool_uses_of (resp_content resp)) \<and>
         rs = map2 (result_of ser) (tool_uses_of (resp_content resp))
                (outcomes reg (tool_uses_of (resp_content resp)) w) \<and>
         length (outcomes reg (tool_uses_of (resp_content resp)) w) =
           length (tool_uses_of (resp_content resp)) \<and>
         agent_loop ser reg create ms lg w =
           agent_loop ser reg create
             (ms @ [\<lparr>role = ''assistant'', msg_content = Blocks (resp_content resp)\<rparr>,
                    \<lparr>role = ''user'', msg_content = ToolResults rs\<rparr>])
             lg' w'"
    if c: "create ms = Inr resp" and n: "stop_reason resp \<noteq> ''end_turn''"
      "tool_uses_of (resp_content resp) \<noteq> []"
  proof -
    from n have nf: "\<not> final resp" by (simp add: final_def)
    have ids: "map tool_use_id (map2 (result_of ser) (tool_uses_of (resp_content resp))
                 (outcomes reg (tool_uses_of (resp_content resp)) w)) =
               map tu_id (tool_uses_of (resp_content resp))"
      by (rule map_results_ids) simp
    show ?thesis
      using agent_loop_continue [where create = create and ms = ms and resp = resp
          and reg = reg and lg = lg and w = w, OF c nf] ids
      by (simp add: exec_tools_eq loop_step_def Let_def)
  qed
  have c: "agent_loop ser reg create ms lg w =
        Some (Inr \<lparr>response = join [CHR 0x0A] (text_blocks_of (resp_content resp)),
                   tool_calls = lg\<rparr>, ms, w)"
    if "create ms = Inr resp"
      "stop_reason resp = ''end_turn'' \<or> tool_uses_of (resp_content resp) = []"
    using agent_loop_final [where create = create and ms = ms and resp = resp
        and reg = reg and lg = lg and w = w, OF that(1)] that(2)
    by (simp add: final_def result_at_def)
  from a b c show ?thesis by blast
qed

theorem exit_test_and_execution_witness:
  "scripted [Inr three_requests, Inr closing]
     (seed ''u1'' ''Find me ramen'' ''San Francisco, CA'') = Inr three_requests \<and>
   stop_reason three_requests \<noteq> ''end_turn'' \<and>
   tool_uses_of (resp_content three_requests) \<noteq> [] \<and>
   exec_tools json_ser demo_registry (tool_uses_of (resp_content three_requests)) [] [] () =
     (demo_log, demo_results, ()) \<and>
   map tool_use_id demo_results = map tu_id [req_prefs, req_search, req_unknown] \<and>
   agent_loop json_ser demo_registry (scripted [Inr three_requests, Inr closing])
     (seed ''u1'' ''Find me ramen'' ''San Francisco, CA'') [] () =
     Some (Inr \<lparr>response = ''Search is unavailable.'', tool_calls = demo_log\<rparr>,
           demo_transcript, ()) \<and>
   scripted [Inr three_requests, Inr closing] demo_transcript = Inr closing \<and>
   stop_reason closing = ''end_turn''"
proof -
  let ?create = "scripted [Inr three_requests, Inr closing]"
  let ?seed = "seed ''u1'' ''Find me ramen'' ''San Francisco, CA''"
  let ?r = "\<lparr>response = ''Search is unavailable.'', tool_calls = demo_log\<rparr>"
  note inst = exit_test_and_execution
    [where ser = json_ser and reg = demo_registry and create = ?create and ms = ?seed
       and lg = "[]" and w = "()" and r = ?r and ms' = demo_transcript and w' = "()"
       and resp = three_requests]
  have h1: "?create ?seed = Inr three_requests" by (rule demo_script_0)
  have h2: "stop_reason three_requests \<noteq> ''end_turn''" by (simp add: three_requests_def)
  have h3: "tool_uses_of (resp_content three_requests) \<noteq> []" by (simp add: demo_tool_uses)
  from inst h1 h2 h3 have step: "agent_loop json_ser demo_registry ?create ?seed [] () =
      agent_loop json_ser demo_registry ?create demo_transcript demo_log ()"
    by (auto simp: demo_exec demo_transcript_def)
  have h4: "?create demo_transcript = Inr closing" by (rule demo_script_1)
  have "final closing" by (simp add: final_def closing_def)
  from agent_loop_final [where create = ?create and ms = demo_transcript, OF h4 this]
  have fin: "agent_loop json_ser demo_registry ?create demo_transcript demo_log () =
      Some (Inr (result_at closing demo_log), demo_transcript, ())" .
  have "result_at closing demo_log = ?r" by (simp add: result_at_def closing_def)
  with step fin
  have ret: "agent_loop json_ser demo_registry ?create ?seed [] () = Some (Inr ?r, demo_transcript, ())"
    by simp
  from inst ret have "\<exists>resp. ?create demo_transcript = Inr resp \<and>
         (stop_reason resp = ''end_turn'' \<or> tool_uses_of (resp_content resp) = []) \<and>
         response ?r = join [CHR 0x0A] (text_blocks_of (resp_content resp))"
    by blast
  with h4 have "stop_reason closing = ''end_turn'' \<or> tool_uses_of (resp_content closing) = []"
    by auto
  then have h5: "stop_reason closing = ''end_turn''" by (simp add: closing_def)
  have ids: "map tool_use_id demo_results = map tu_id [req_prefs, req_search, req_unknown]"
    by (simp add: demo_defs del: dumps.simps)
  from h1 h2 h3 demo_exec ids ret h4 h5 show ?thesis by blast
qed

text \<open>
  The claim as stated asks for both conditions at the exit. A response that signals the end
  of the turn and carries a tool-request makes the run return at once: the request is
  never dispatched and the log is empty.
\<close>

theorem end_turn_drops_requests:
  "scripted [Inr hasty] (seed ''u1'' ''Find me ramen'' ''San Francisco, CA'') = Inr hasty \<and>
   tool_uses_of (resp_content hasty) = [req_prefs] \<and>
   run json_ser demo_registry (scripted [Inr hasty]) ''u1'' ''Find me ramen'' ''San Francisco, CA'' () =
     Some (Inr \<lparr>response = ''Done.'', tool_calls = []\<rparr>,
           seed ''u1'' ''Find me ramen'' ''San Francisco, CA'', ())"
  by (simp add: run_def agent_loop_final [where resp = hasty] final_def result_at_def
        scripted_def seed_def hasty_def)

text \<open>
  C2. A tool-request whose callable raises is caught by the executor. Its log entry and its
  Tool Result carry the error flag and the serialized payload \<open>{"error": str(exc)}\<close>,
  a text that decodes to the dictionary with the one key \<open>error\<close> and the message.
  Inside a batch the request at any position is treated so, the rest of the batch is still
  executed, and the loop goes on to the next inference call with the whole batch appended.
  The only exception a run can end with is one raised by the inference call itself.
\<close>

theorem tool_failure_is_contained:
  "(dispatch_tool reg (tu_name tu) (tu_input tu) w = (Inl exc, w') \<longrightarrow>
      exec_tool ser reg tu lg rs w =
        (lg @ [\<lparr>log_tool = tu_name tu, log_input = tu_input tu,
                log_output = dumps (JObj [(''error'', JStr (exn_str exc))]),
                log_error = True\<rparr>],
         rs @ [\<lparr>tool_use_id = tu_id tu,
                tr_content = dumps (JObj [(''error'', JStr (exn_str exc))]),
                is_error = True\<rparr>],
         w')) \<and>
   (create ms = Inr resp \<longrightarrow> \<not> final resp \<longrightarrow>
    tool_uses_of (resp_content resp) = pre @ tu # post \<longrightarrow>
    fst (dispatch_tool reg (tu_name tu) (tu_input tu) (world_after reg pre w)) = Inl exc \<longrightarrow>
      (\<exists>lg' rs w'.
         exec_tools ser reg (tool_uses_of (resp_content resp)) lg [] w = (lg', rs, w') \<and>
         length rs = length (tool_uses_of (resp_content resp)) \<and>
         rs ! length pre =
           \<lparr>tool_use_id = tu_id tu,
            tr_content = dumps (JObj [(''error'', JStr (exn_str exc))]),
            is_error = True\<rparr> \<and>
         agent_loop ser reg create ms lg w =
           agent_loop ser reg create
             (ms @ [\<lparr>role = ''assistant'', msg_content = Blocks (resp_content resp)\<rparr>,
                    \<lparr>role = ''user'', msg_content = ToolResults rs\<rparr>])
             lg' w')) \<and>
   (agent_loop ser reg create ms lg w = Some (Inl exc', ms', w'') \<longrightarrow> create ms' = Inl exc') \<and>
   loads (dumps (JObj [(''error'', JStr (exn_str exc))])) =
     Decoded (JObj [(''error'', JStr (exn_str exc))])"
proof -
  have a: "exec_tool ser reg tu lg rs w =
        (lg @ [\<lparr>log_tool = tu_name tu, log_input = tu_input tu,
                log_output = dumps (JObj [(''error'', JStr (exn_str exc))]),
                log_error = True\<rparr>],
         rs @ [\<lparr>tool_use_id = tu_id tu,
                tr_content = dumps (JObj [(''error'', JStr (exn_str exc))]),
                is_error = True\<rparr>],
         w')"
    if "dispatch_tool reg (tu_name tu) (tu_input tu) w = (Inl exc, w')"
    using that by (simp add: exec_tool_def)
  have b: "\<exists>lg' rs w'.
         exec_tools ser reg (tool_uses_of (resp_content resp)) lg [] w = (lg', rs, w') \<and>
         length rs = length (tool_uses_of (resp_content resp)) \<and>
         rs ! length pre =
           \<lparr>tool_use_id = tu_id tu,
            tr_content = dumps (JObj [(''error'', JStr (exn_str exc))]),
            is_error = True\<rparr> \<and>
         agent_loop ser reg create ms lg w =
           agent_loop ser reg create
             (ms @ [\<lparr>role = ''assistant'', msg_content = Blocks (resp_content resp)\<rparr>,
                    \<lparr>role = ''user'', msg_content = ToolResults rs\<rparr>])
             lg' w'"
    if c: "create ms = Inr resp" and nf: "\<not> final resp"
      and split: "tool_uses_of (resp_content resp) = pre @ tu # post"
      and raised: "fst (dispatch_tool reg (tu_name tu) (tu_input tu) (world_after reg pre w)) = Inl exc"
  proof -
    let ?tus = "tool_uses_of (resp_content resp)"
    let ?rs = "map2 (result_of ser) ?tus (outcomes reg ?tus w)"
    have "outcomes reg ?tus w ! length pre = Inl exc"
      using raised
      by (auto simp: split outcomes_append nth_append split: prod.splits)
    then have "?rs ! length pre = result_of ser tu (Inl exc)"
      by (simp add: split nth_append)
    then have nth: "?rs ! length pre =
           \<lparr>tool_use_id = tu_id tu,
            tr_content = dumps (JObj [(''error'', JStr (exn_str exc))]),
            is_error = True\<rparr>"
      by (simp add: result_of_def error_payload_def)
    show ?thesis
      using agent_loop_continue [where create = create and ms = ms and resp = resp
          and reg = reg and lg = lg and w = w, OF c nf] nth
      by (simp add: exec_tools_eq loop_step_def Let_def)
  qed
  have c: "create ms' = Inl exc'"
    if ret: "agent_loop ser reg create ms lg w = Some (Inl exc', ms', w'')"
  proof (cases "create ms'")
    case (Inl e)
    with agent_loop_exit [OF ret] show ?thesis by simp
  next
    case (Inr resp)
    with agent_loop_exit [OF ret] show ?thesis by simp
  qed
  have d: "loads (dumps (JObj [(''error'', JStr (exn_str exc))])) =
     Decoded (JObj [(''error'', JStr (exn_str exc))])"
    by (rule loads_dumps) simp
  from a b c d show ?thesis by blast
qed


theorem tool_failure_is_contained_witness:
  "dispatch_tool demo_registry (tu_name req_search) (tu_input req_search) () =
     (Inl missing_key, ()) \<and>
   exec_tool json_ser demo_registry req_search [] [] () =
     ([\<lparr>log_tool = ''search_restaurants'', log_input = tu_input req_search,
        log_output = dumps (JObj [(''error'',
          JStr ''GOOGLE_PLACES_API_KEY environment variable is not set'')]),
        log_error = True\<rparr>],
      [\<lparr>tool_use_id = ''toolu_B'',
        tr_content = dumps (JObj [(''error'',
          JStr ''GOOGLE_PLACES_API_KEY environment variable is not set'')]),
        is_error = True\<rparr>],
      ()) \<and>
   scripted [Inr three_requests, Inl (Exn ''APIConnectionError'' ''Connection error.'')]
     (seed ''u1'' ''Find me ramen'' ''San Francisco, CA'') = Inr three_requests \<and>
   \<not> final three_requests \<and>
   tool_uses_of (resp_content three_requests) = [req_prefs] @ req_search # [req_unknown] \<and>
   fst (dispatch_tool demo_registry (tu_name req_search) (tu_input req_search)
          (world_after demo_registry [req_prefs] ())) = Inl missing_key \<and>
   exec_tools json_ser demo_registry (tool_uses_of (resp_content three_requests)) [] [] () =
     (demo_log, demo_results, ()) \<and>
   demo_results ! 1 =
     \<lparr>tool_use_id = ''toolu_B'',
      tr_content = dumps (JObj [(''error'',
        JStr ''GOOGLE_PLACES_API_KEY environment variable is not set'')]),
      is_error = True\<rparr> \<and>
   agent_loop json_ser demo_registry
     (scripted [Inr three_requests, Inl (Exn ''APIConnectionError'' ''Connection error.'')])
     (seed ''u1'' ''Find me ramen'' ''San Francisco, CA'') [] () =
     Some (Inl (Exn ''APIConnectionError'' ''Connection error.''), demo_transcript, ()) \<and>
   scripted [Inr three_requests, Inl (Exn ''APIConnectionError'' ''Connection error.'')]
     demo_transcript = Inl (Exn ''APIConnectionError'' ''Connection error.'')"
proof -
  let ?exc = "Exn ''APIConnectionError'' ''Connection error.''"
  let ?create = "scripted [Inr three_requests, Inl ?exc]"
  let ?seed = "seed ''u1'' ''Find me ramen'' ''San Francisco, CA''"
  note inst = tool_failure_is_contained
    [where ser = json_ser and reg = demo_registry and tu = req_search and w = "()" and exc = missing_key
       and w' = "()" and lg = "[]" and rs = "[]" and create = ?create and ms = ?seed
       and resp = three_requests and pre = "[req_prefs]" and post = "[req_unknown]"
       and exc' = ?exc and ms' = demo_transcript and w'' = "()"]
  have h1: "dispatch_tool demo_registry (tu_name req_search) (tu_input req_search) () =
     (Inl missing_key, ())"
    by (simp add: dispatch_tool_def demo_registry_def req_search_def stub_tool_def)
  from inst h1 have c1: "exec_tool json_ser demo_registry req_search [] [] () =
        ([] @ [\<lparr>log_tool = tu_name req_search, log_input = tu_input req_search,
                log_output = dumps (JObj [(''error'', JStr (exn_str missing_key))]),
                log_error = True\<rparr>],
         [] @ [\<lparr>tool_use_id = tu_id req_search,
                tr_content = dumps (JObj [(''error'', JStr (exn_str missing_key))]),
                is_error = True\<rparr>],
         ())"
    by blast
  have h2: "?create ?seed = Inr three_requests" by (rule demo_script_0)
  have h3: "tool_uses_of (resp_content three_requests) = [req_prefs] @ req_search # [req_unknown]"
    by (simp add: demo_tool_uses)
  have h4: "fst (dispatch_tool demo_registry (tu_name req_search) (tu_input req_search)
          (world_after demo_registry [req_prefs] ())) = Inl missing_key"
    by (simp add: h1)
  from inst h2 demo_not_final h3 h4
  have "\<exists>lg' rs w'.
         exec_tools json_ser demo_registry (tool_uses_of (resp_content three_requests)) [] [] () =
           (lg', rs, w') \<and>
         rs ! length [req_prefs] =
           \<lparr>tool_use_id = tu_id req_search,
            tr_content = dumps (JObj [(''error'', JStr (exn_str missing_key))]),
            is_error = True\<rparr>"
    by blast
  then have c2: "demo_results ! 1 =
           \<lparr>tool_use_id = tu_id req_search,
            tr_content = dumps (JObj [(''error'', JStr (exn_str missing_key))]),
            is_error = True\<rparr>"
    by (auto simp: demo_exec simp del: dumps.simps)
  have r: "agent_loop json_ser demo_registry ?create ?seed [] () = Some (Inl ?exc, demo_transcript, ())"
    using demo_run_failing [of ?exc] by (simp add: run_def)
  with inst have c3: "?create demo_transcript = Inl ?exc" by blast
  from h1 c1 h2 demo_not_final h3 h4 demo_exec c2 r c3 show ?thesis
    by (simp add: req_search_def missing_key_def del: dumps.simps)
qed

text \<open>
  C3. The tool-results of a batch appear in the order of the tool-requests that produced
  them, each under the identifier of its request, and the log grows by exactly one entry
  per request, in the same order. For a returned run: in the final transcript every
  message of content blocks is followed by the message of its tool-results, paired one by
  one by identifier, and the returned log is, entry by entry and in order, the sequence of
  all tool-requests and tool-results of the transcript, nothing merged and nothing moved.
\<close>

theorem request_order_is_kept:
  "(exec_tools ser reg tus lg [] w = (lg', rs, w') \<longrightarrow>
      map tool_use_id rs = map tu_id tus \<and>
      (\<exists>es. lg' = lg @ es \<and> length es = length tus \<and>
            map log_tool es = map tu_name tus \<and> map log_input es = map tu_input tus)) \<and>
   (run ser reg create user_id message location w = Some (Inr r, ms'', w'') \<longrightarrow>
      paired ms'' \<and> log_matches ms'' (tool_calls r))"
proof -
  have a: "map tool_use_id rs = map tu_id tus \<and>
      (\<exists>es. lg' = lg @ es \<and> length es = length tus \<and>
            map log_tool es = map tu_name tus \<and> map log_input es = map tu_input tus)"
    if "exec_tools ser reg tus lg [] w = (lg', rs, w')"
  proof -
    have len: "length (outcomes reg tus w) = length tus" by simp
    from that have "rs = map2 (result_of ser) tus (outcomes reg tus w)"
      and "lg' = lg @ map2 (entry_of ser) tus (outcomes reg tus w)"
      by (simp_all add: exec_tools_eq)
    with map_results_ids [OF len] map_entries(1,2) [OF len] show ?thesis by simp
  qed
  have b: "paired ms'' \<and> log_matches ms'' (tool_calls r)"
    if ret: "run ser reg create user_id message location w = Some (Inr r, ms'', w'')"
    using agent_loop_keeps_pairing [OF ret [unfolded run_def]]
    by (simp add: seed_def log_matches_def)
  from a b show ?thesis by blast
qed


theorem request_order_is_kept_witness:
  "exec_tools json_ser demo_registry [req_prefs, req_search, req_unknown] [] [] () =
     (demo_log, demo_results, ()) \<and>
   map tool_use_id demo_results = [''toolu_A'', ''toolu_B'', ''toolu_C''] \<and>
   map tu_id [req_prefs, req_search, req_unknown] = [''toolu_A'', ''toolu_B'', ''toolu_C''] \<and>
   map log_tool demo_log = [''get_preferences'', ''search_restaurants'', ''book_table''] \<and>
   run json_ser demo_registry (scripted [Inr three_requests, Inr closing])
     ''u1'' ''Find me ramen'' ''San Francisco, CA'' () =
     Some (Inr \<lparr>response = ''Search is unavailable.'', tool_calls = demo_log\<rparr>,
           demo_transcript, ()) \<and>
   paired demo_transcript \<and> log_matches demo_transcript demo_log"
proof -
  note inst = request_order_is_kept
    [where ser = json_ser and reg = demo_registry
       and tus = "[req_prefs, req_search, req_unknown]" and lg = "[]" and w = "()"
       and lg' = demo_log and rs = demo_results and w' = "()"
       and create = "scripted [Inr three_requests, Inr closing]" and user_id = "''u1''"
       and message = "''Find me ramen''" and location = "''San Francisco, CA''"
       and r = "\<lparr>response = ''Search is unavailable.'', tool_calls = demo_log\<rparr>"
       and ms'' = demo_transcript and w'' = "()"]
  have e: "exec_tools json_ser demo_registry [req_prefs, req_search, req_unknown] [] [] () =
     (demo_log, demo_results, ())"
    using demo_exec by (simp add: demo_tool_uses)
  from inst e have ids: "map tool_use_id demo_results = map tu_id [req_prefs, req_search, req_unknown]"
    by blast
  have t: "map tu_id [req_prefs, req_search, req_unknown] = [''toolu_A'', ''toolu_B'', ''toolu_C'']"
    by (simp add: demo_defs)
  have n: "map log_tool demo_log = [''get_preferences'', ''search_restaurants'', ''book_table'']"
    by (simp add: demo_defs del: dumps.simps)
  from inst demo_run_closing
  have p: "paired demo_transcript \<and> log_matches demo_transcript demo_log"
    by simp
  from e ids t n demo_run_closing p show ?thesis by simp
qed

text \<open>
  C5. Dispatching a name that the registry does not hold raises \<open>ValueError\<close> with the
  message \<open>Unknown tool: <name>\<close>; nothing is called and the world is unchanged. The
  executor contains it like any failure of a tool: the log entry and the Tool Result carry
  the error flag and that message, and a batch holding such a request still leads to the
  next inference call, with the error result in the batch.
\<close>

theorem unknown_tool_is_contained:
  "reg name = None \<longrightarrow>
     dispatch_tool reg name inputs w = (Inl (Exn ''ValueError'' (''Unknown tool: '' @ name)), w) \<and>
     exec_tool ser reg \<lparr>tu_id = i, tu_name = name, tu_input = inputs\<rparr> lg rs w =
       (lg @ [\<lparr>log_tool = name, log_input = inputs,
               log_output = dumps (JObj [(''error'', JStr (''Unknown tool: '' @ name))]),
               log_error = True\<rparr>],
        rs @ [\<lparr>tool_use_id = i,
               tr_content = dumps (JObj [(''error'', JStr (''Unknown tool: '' @ name))]),
               is_error = True\<rparr>],
        w) \<and>
     (create ms = Inr resp \<longrightarrow> \<not> final resp \<longrightarrow>
      \<lparr>tu_id = i, tu_name = name, tu_input = inputs\<rparr> \<in> set (tool_uses_of (resp_content resp)) \<longrightarrow>
        (\<exists>lg' rs' w'.
           exec_tools ser reg (tool_uses_of (resp_content resp)) lg [] w = (lg', rs', w') \<and>
           \<lparr>tool_use_id = i,
            tr_content = dumps (JObj [(''error'', JStr (''Unknown tool: '' @ name))]),
            is_error = True\<rparr> \<in> set rs' \<and>
           agent_loop ser reg create ms lg w =
             agent_loop ser reg create
               (ms @ [\<lparr>role = ''assistant'', msg_content = Blocks (resp_content resp)\<rparr>,
                      \<lparr>role = ''user'', msg_content = ToolResults rs'\<rparr>])
               lg' w'))"
proof (intro impI)
  assume none: "reg name = None"
  let ?tu = "\<lparr>tu_id = i, tu_name = name, tu_input = inputs\<rparr>"
  let ?payload = "dumps (JObj [(''error'', JStr (''Unknown tool: '' @ name))])"
  let ?res = "\<lparr>tool_use_id = i, tr_content = ?payload, is_error = True\<rparr>"
  have a: "dispatch_tool reg name inputs w = (Inl (Exn ''ValueError'' (''Unknown tool: '' @ name)), w)"
    for w :: 'b
    using none by (rule dispatch_unknown)
  have b: "exec_tool ser reg ?tu lg rs w =
       (lg @ [\<lparr>log_tool = name, log_input = inputs, log_output = ?payload, log_error = True\<rparr>],
        rs @ [?res], w)"
    by (simp add: exec_tool_def a)
  have c: "\<exists>lg' rs' w'.
           exec_tools ser reg (tool_uses_of (resp_content resp)) lg [] w = (lg', rs', w') \<and>
           ?res \<in> set rs' \<and>
           agent_loop ser reg create ms lg w =
             agent_loop ser reg create
               (ms @ [\<lparr>role = ''assistant'', msg_content = Blocks (resp_content resp)\<rparr>,
                      \<lparr>role = ''user'', msg_content = ToolResults rs'\<rparr>])
               lg' w'"
    if cr: "create ms = Inr resp" and nf: "\<not> final resp"
      and mem: "?tu \<in> set (tool_uses_of (resp_content resp))"
  proof -
    let ?tus = "tool_uses_of (resp_content resp)"
    let ?rs = "map2 (result_of ser) ?tus (outcomes reg ?tus w)"
    from mem obtain pre post where split: "?tus = pre @ ?tu # post"
      by (auto simp: in_set_conv_decomp)
    have "?rs ! length pre = result_of ser ?tu (Inl (Exn ''ValueError'' (''Unknown tool: '' @ name)))"
      using nth_batch_result [where ser = ser and pre = pre and tu = ?tu and post = post
          and reg = reg and w = w] a
      by (simp add: split)
    then have nth: "?rs ! length pre = ?res"
      by (simp add: result_of_def error_payload_def)
    have "length pre < length ?rs" by (simp add: split)
    with nth have "?res \<in> set ?rs" by (metis nth_mem)
    then show ?thesis
      using agent_loop_continue [where create = create and ms = ms and resp = resp
          and reg = reg and lg = lg and w = w, OF cr nf]
      by (simp add: exec_tools_eq loop_step_def Let_def)
  qed
  from a b c show "dispatch_tool reg name inputs w =
       (Inl (Exn ''ValueError'' (''Unknown tool: '' @ name)), w) \<and>
     exec_tool ser reg ?tu lg rs w =
       (lg @ [\<lparr>log_tool = name, log_input = inputs, log_output = ?payload, log_error = True\<rparr>],
        rs @ [?res], w) \<and>
     (create ms = Inr resp \<longrightarrow> \<not> final resp \<longrightarrow>
      ?tu \<in> set (tool_uses_of (resp_content resp)) \<longrightarrow>
        (\<exists>lg' rs' w'.
           exec_tools ser reg (tool_uses_of (resp_content resp)) lg [] w = (lg', rs', w') \<and>
           ?res \<in> set rs' \<and>
           agent_loop ser reg create ms lg w =
             agent_loop ser reg create
               (ms @ [\<lparr>role = ''assistant'', msg_content = Blocks (resp_content resp)\<rparr>,
                      \<lparr>role = ''user'', msg_content = ToolResults rs'\<rparr>])
               lg' w'))"
    by blast
qed


theorem unknown_tool_is_contained_witness:
  "demo_registry ''book_table'' = None \<and>
   dispatch_tool demo_registry ''book_table'' (JObj []) () =
     (Inl (Exn ''ValueError'' ''Unknown tool: book_table''), ()) \<and>
   exec_tool json_ser demo_registry \<lparr>tu_id = ''toolu_C'', tu_name = ''book_table'', tu_input = JObj []\<rparr>
       [] [] () =
     ([\<lparr>log_tool = ''book_table'', log_input = JObj [],
        log_output = dumps (JObj [(''error'', JStr ''Unknown tool: book_table'')]),
        log_error = True\<rparr>],
      [\<lparr>tool_use_id = ''toolu_C'',
        tr_content = dumps (JObj [(''error'', JStr ''Unknown tool: book_table'')]),
        is_error = True\<rparr>],
      ()) \<and>
   scripted [Inr three_requests, Inr closing]
     (seed ''u1'' ''Find me ramen'' ''San Francisco, CA'') = Inr three_requests \<and>
   \<not> final three_requests \<and>
   \<lparr>tu_id = ''toolu_C'', tu_name = ''book_table'', tu_input = JObj []\<rparr>
     \<in> set (tool_uses_of (resp_content three_requests)) \<and>
   \<lparr>tool_use_id = ''toolu_C'',
    tr_content = dumps (JObj [(''error'', JStr ''Unknown tool: book_table'')]),
    is_error = True\<rparr> \<in> set demo_results \<and>
   run json_ser demo_registry (scripted [Inr three_requests, Inr closing])
     ''u1'' ''Find me ramen'' ''San Francisco, CA'' () =
     Some (Inr \<lparr>response = ''Search is unavailable.'', tool_calls = demo_log\<rparr>,
           demo_transcript, ())"
proof -
  let ?create = "scripted [Inr three_requests, Inr closing]"
  let ?seed = "seed ''u1'' ''Find me ramen'' ''San Francisco, CA''"
  note inst = unknown_tool_is_contained
    [where ser = json_ser and reg = demo_registry and name = "''book_table''"
       and inputs = "JObj []" and w = "()" and i = "''toolu_C''" and lg = "[]" and rs = "[]"
       and create = ?create and ms = ?seed and resp = three_requests]
  have h0: "demo_registry ''book_table'' = None" by (simp add: demo_registry_def)
  have h1: "?create ?seed = Inr three_requests" by (rule demo_script_0)
  have h2: "\<lparr>tu_id = ''toolu_C'', tu_name = ''book_table'', tu_input = JObj []\<rparr>
     \<in> set (tool_uses_of (resp_content three_requests))"
    by (simp add: demo_tool_uses req_unknown_def)
  from inst h0 h1 h2 demo_not_final
  have "\<exists>lg' rs' w'.
      exec_tools json_ser demo_registry (tool_uses_of (resp_content three_requests)) [] [] () =
        (lg', rs', w') \<and>
      \<lparr>tool_use_id = ''toolu_C'',
       tr_content = dumps (JObj [(''error'', JStr (''Unknown tool: '' @ ''book_table''))]),
       is_error = True\<rparr> \<in> set rs'"
    by blast
  then have m: "\<lparr>tool_use_id = ''toolu_C'',
       tr_content = dumps (JObj [(''error'', JStr (''Unknown tool: '' @ ''book_table''))]),
       is_error = True\<rparr> \<in> set demo_results"
    by (auto simp: demo_exec simp del: dumps.simps)
  from inst h0 have d: "dispatch_tool demo_registry ''book_table'' (JObj []) () =
     (Inl (Exn ''ValueError'' (''Unknown tool: '' @ ''book_table'')), ())"
    by blast
  from inst h0 have e: "exec_tool json_ser demo_registry
       \<lparr>tu_id = ''toolu_C'', tu_name = ''book_table'', tu_input = JObj []\<rparr> [] [] () =
     ([] @ [\<lparr>log_tool = ''book_table'', log_input = JObj [],
        log_output = dumps (JObj [(''error'', JStr (''Unknown tool: '' @ ''book_table''))]),
        log_error = True\<rparr>],
      [] @ [\<lparr>tool_use_id = ''toolu_C'',
        tr_content = dumps (JObj [(''error'', JStr (''Unknown tool: '' @ ''book_table''))]),
        is_error = True\<rparr>],
      ())"
    by blast
  from h0 d e h1 demo_not_final h2 m demo_run_closing show ?thesis
    by (simp del: dumps.simps)
qed



section \<open>The claims about the tools\<close>

text \<open>
  C4. For every user and every upsert, whatever the enumeration of a set union: a list
  column passed a list afterwards holds exactly the elements it held before together with
  those passed, none twice, and upserting the same arguments a second time leaves it so;
  the price range passed is the price range stored; a column passed \<open>None\<close> holds
  afterwards what it held before. "Holds" is what \<open>get_preferences\<close> reports for the
  user.
\<close>

theorem upsert_unions_overwrites_keeps:
  assumes "enumerates_union U"
    and "db' = snd (save_preference U uid cl cd dr pr lp dp db)"
    and "db'' = snd (save_preference U uid cl cd dr pr lp dp db')"
  shows
  "(\<forall>new. cl = Some new \<longrightarrow>
      merged (stored_list cuisines_liked uid db) new (stored_list cuisines_liked uid db') \<and>
      merged (stored_list cuisines_liked uid db) new (stored_list cuisines_liked uid db'')) \<and>
   (\<forall>new. cd = Some new \<longrightarrow>
      merged (stored_list cuisines_disliked uid db) new (stored_list cuisines_disliked uid db') \<and>
      merged (stored_list cuisines_disliked uid db) new (stored_list cuisines_disliked uid db'')) \<and>
   (\<forall>new. dr = Some new \<longrightarrow>
      merged (stored_list dietary_restrictions uid db) new
        (stored_list dietary_restrictions uid db') \<and>
      merged (stored_list dietary_restrictions uid db) new
        (stored_list dietary_restrictions uid db'')) \<and>
   (\<forall>new. lp = Some new \<longrightarrow>
      merged (stored_list liked_place_ids uid db) new (stored_list liked_place_ids uid db') \<and>
      merged (stored_list liked_place_ids uid db) new (stored_list liked_place_ids uid db'')) \<and>
   (\<forall>new. dp = Some new \<longrightarrow>
      merged (stored_list disliked_place_ids uid db) new
        (stored_list disliked_place_ids uid db') \<and>
      merged (stored_list disliked_place_ids uid db) new
        (stored_list disliked_place_ids uid db'')) \<and>
   (\<forall>new. pr = Some new \<longrightarrow> stored_price uid db' = Some new) \<and>
   (cl = None \<longrightarrow> stored_list cuisines_liked uid db' = stored_list cuisines_liked uid db) \<and>
   (cd = None \<longrightarrow> stored_list cuisines_disliked uid db' = stored_list cuisines_disliked uid db) \<and>
   (dr = None \<longrightarrow>
      stored_list dietary_restrictions uid db' = stored_list dietary_restrictions uid db) \<and>
   (lp = None \<longrightarrow> stored_list liked_place_ids uid db' = stored_list liked_place_ids uid db) \<and>
   (dp = None \<longrightarrow>
      stored_list disliked_place_ids uid db' = stored_list disliked_place_ids uid db) \<and>
   (pr = None \<longrightarrow> stored_price uid db' = stored_price uid db)"
proof -
  from assms(1) have s: "set (U a b) = set a \<union> set b" and d: "distinct (U a b)" for a b
    by (simp_all add: enumerates_union_def)
  show ?thesis
    unfolding assms(2,3)
    by (cases "first_pref uid db")
       (auto simp: merged_def stored_list_def stored_price_def first_pref_save s d Let_def
          or_empty_def insert_defaults_def new_pref_def)
qed

theorem upsert_unions_overwrites_keeps_witness:
  "enumerates_union union_in_order \<and>
   stored_list cuisines_liked ''user3'' thai_store = [''Thai''] \<and>
   stored_price ''user3'' thai_store = Some ''$$$'' \<and>
   stored_list cuisines_liked ''user3''
     (snd (save_preference union_in_order ''user3'' None None (Some [''vegan'', ''vegan''])
             (Some ''$$'') None None thai_store)) = [''Thai''] \<and>
   stored_price ''user3''
     (snd (save_preference union_in_order ''user3'' None None (Some [''vegan'', ''vegan''])
             (Some ''$$'') None None thai_store)) = Some ''$$'' \<and>
   stored_list dietary_restrictions ''user3''
     (snd (save_preference union_in_order ''user3'' None None (Some [''vegan'', ''vegan''])
             (Some ''$$'') None None thai_store)) = [''vegan''] \<and>
   stored_list dietary_restrictions ''user3''
     (snd (save_preference union_in_order ''user3'' None None (Some [''vegan'', ''vegan''])
             (Some ''$$'') None None
        (snd (save_preference union_in_order ''user3'' None None (Some [''vegan'', ''vegan''])
             (Some ''$$'') None None thai_store)))) = [''vegan'']"
proof -
  let ?db' = "snd (save_preference union_in_order ''user3'' None None (Some [''vegan'', ''vegan''])
             (Some ''$$'') None None thai_store)"
  let ?db'' = "snd (save_preference union_in_order ''user3'' None None (Some [''vegan'', ''vegan''])
             (Some ''$$'') None None ?db')"
  note inst = upsert_unions_overwrites_keeps
    [where U = union_in_order and uid = "''user3''" and cl = None and cd = None
       and dr = "Some [''vegan'', ''vegan'']" and pr = "Some ''$$''" and lp = None and dp = None
       and db = thai_store, OF union_in_order_enumerates refl refl]
  from inst have a: "stored_list cuisines_liked ''user3'' ?db' = [''Thai'']"
    by (simp add: thai_views)
  from inst have b: "stored_price ''user3'' ?db' = Some ''$$''"
    by simp
  from inst have c: "merged [] [''vegan'', ''vegan''] (stored_list dietary_restrictions ''user3'' ?db')"
    and d: "merged [] [''vegan'', ''vegan''] (stored_list dietary_restrictions ''user3'' ?db'')"
    by (simp_all add: thai_views)
  have one: "xs = [''vegan'']" if "merged [] [''vegan'', ''vegan''] xs" for xs
  proof -
    from that have "set xs = {''vegan''}" and "distinct xs" by (simp_all add: merged_def)
    then show ?thesis
      by (cases xs) (auto simp: insert_eq_iff dest: subset_singletonD)
  qed
  from a b one [OF c] one [OF d] union_in_order_enumerates thai_views show ?thesis by simp
qed


text \<open>
  C6, as the code has it. For a user identifier with no stored preference record,
  \<open>get_preferences\<close> returns (it does not raise) the all-empty default record together
  with the identifier it was asked about: \<open>user_id\<close>, then the five empty lists and the
  null price range.
\<close>

theorem unknown_user_gets_defaults:
  "first_pref user_id db = None \<longrightarrow>
     get_preferences user_id db =
       JObj [(''user_id'', JStr user_id),
             (''cuisines_liked'', JList []),
             (''cuisines_disliked'', JList []),
             (''dietary_restrictions'', JList []),
             (''price_range'', JNull),
             (''liked_place_ids'', JList []),
             (''disliked_place_ids'', JList [])]"
  by (simp add: get_preferences_def)

theorem unknown_user_gets_defaults_witness:
  "first_pref ''user_new'' thai_store = None \<and>
   get_preferences ''user_new'' thai_store =
     JObj [(''user_id'', JStr ''user_new''),
           (''cuisines_liked'', JList []),
           (''cuisines_disliked'', JList []),
           (''dietary_restrictions'', JList []),
           (''price_range'', JNull),
           (''liked_place_ids'', JList []),
           (''disliked_place_ids'', JList [])]"
proof -
  have h: "first_pref ''user_new'' thai_store = None"
    by (simp add: thai_store_eq first_pref_def)
  with unknown_user_gets_defaults [of "''user_new''" thai_store] show ?thesis by simp
qed

text \<open>
  The claim as stated gives the returned record as the six preference fields alone. The
  record returned for an unknown user has a seventh entry, \<open>user_id\<close>, so it is not that
  literal record.
\<close>

theorem default_record_has_user_id:
  "first_pref ''user_new'' empty_store = None \<and>
   get_preferences ''user_new'' empty_store \<noteq>
     JObj [(''cuisines_liked'', JList []),
           (''cuisines_disliked'', JList []),
           (''dietary_restrictions'', JList []),
           (''price_range'', JNull),
           (''liked_place_ids'', JList []),
           (''disliked_place_ids'', JList [])]"
  by (simp add: get_preferences_def first_pref_def empty_store_def)

text \<open>
  C9. A search that returns, returns at most ten records; and when the client is available
  and geocoding the location yields no match, the search returns the empty list.
\<close>

theorem search_returns_at_most_ten:
  "(search_restaurants query location radius env = (Inr found, env') \<longrightarrow> length found \<le> 10) \<and>
   (get_client env = (Inr client, env') \<longrightarrow> geocode client location = Inr [] \<longrightarrow>
      search_restaurants query location radius env = (Inr [], env'))"
proof -
  have a: "length found \<le> 10"
    if "search_restaurants query location radius env = (Inr found, env')"
    using that
    by (auto simp: search_restaurants_def split: prod.splits sum.splits list.splits
          dest!: collect_places_length)
  have b: "search_restaurants query location radius env = (Inr [], env')"
    if "get_client env = (Inr client, env')" "geocode client location = Inr []"
    using that by (simp add: search_restaurants_def)
  from a b show ?thesis by blast
qed

theorem search_returns_at_most_ten_witness:
  "get_client mock_env = (Inr mock_gmaps, mock_env) \<and>
   geocode mock_gmaps ''Atlantis'' = Inr [] \<and>
   search_restaurants ''ramen'' ''Atlantis'' 5000 mock_env = (Inr [], mock_env) \<and>
   search_restaurants ''ramen'' ''San Francisco, CA'' 5000 mock_env =
     (Inr (replicate 10 ramen_record), mock_env) \<and>
   length (replicate 10 ramen_record) \<le> 10"
proof -
  have h1: "get_client mock_env = (Inr mock_gmaps, mock_env)"
    by (simp add: get_client_def mock_env_def)
  have h2: "geocode mock_gmaps ''Atlantis'' = Inr []"
    by (simp add: mock_gmaps_def)
  note inst = search_returns_at_most_ten
    [where env = mock_env and env' = mock_env and radius = 5000 and query = "''ramen''"]
  from inst [of "''Atlantis''" _ mock_gmaps] h1 h2
  have c1: "search_restaurants ''ramen'' ''Atlantis'' 5000 mock_env = (Inr [], mock_env)"
    by blast
  have "take 10 (replicate 12 ramen_house) = replicate 10 ramen_house" by simp
  then have c2: "search_restaurants ''ramen'' ''San Francisco, CA'' 5000 mock_env =
      (Inr (replicate 10 ramen_record), mock_env)"
    using collect_replicate [OF ramen_record_eq, of 10 "[]"]
    by (simp add: search_restaurants_def h1 mock_gmaps_def getitem_def)
  from inst [of "''San Francisco, CA''" "replicate 10 ramen_record"] c2
  have c3: "length (replicate 10 ramen_record) \<le> 10" by blast
  from h1 h2 c1 c2 c3 show ?thesis by blast
qed

end
